theory Spec2Isabelle
  imports Main
begin

section \<open>The process supervisor of sbox (package process, and its callers in package main)\<close>

text \<open>
  The Go package \<^verbatim>\<open>process\<close> keeps a table of named daemons in the file
  \<^verbatim>\<open>.sbox/processes.json\<close>, probes liveness with signal 0, starts and stops daemons and
  prints the tail of their log files. Every function below is the translation of the Go
  function of the same name. What Go takes from the operating system (the files, the live
  processes, the clock, standard output) is a field of the record \<open>world\<close>, which the
  functions take and return.
\<close>

subsection \<open>Data model\<close>

text \<open>A \<^verbatim>\<open>time.Time\<close>, by its year and its RFC3339 text.\<close>

datatype go_time = GoTime (year: int) (rfc3339: string)

text \<open>\<^verbatim>\<open>type ProcessInfo struct\<close>. A \<open>string\<close> is a list of bytes, as in Go.\<close>

record ProcessInfo =
  PID :: int
  Name :: string
  Command :: string
  StartTime :: go_time
  Status :: string
  LogFile :: string
  Project :: string

text \<open>\<^verbatim>\<open>type ProcessManager struct\<close>.\<close>

record ProcessManager =
  SboxDir :: string
  ProjectRoot :: string
  ProjectName :: string

text \<open>
  The table file: it does not exist, it cannot be read, its bytes are not the JSON of a
  \<^verbatim>\<open>[]ProcessInfo\<close> (the bytes are kept; the empty file is \<open>Malformed []\<close>), or its bytes
  are the JSON that \<^verbatim>\<open>json.MarshalIndent\<close> makes of a list of records (\<open>Table\<close> of the list
  that was marshalled). What \<^verbatim>\<open>json.Unmarshal\<close> reads back from that JSON is
  \<open>json_roundtrip\<close> of the records, below.
\<close>

datatype table_file = Absent | Unreadable | Malformed string | Table "ProcessInfo list"

text \<open>A log file, by what \<^verbatim>\<open>os.Stat\<close> and \<^verbatim>\<open>os.Open\<close> make of it.\<close>

datatype log_file = NoLog | LogDenied | Log string

text \<open>The reaction of a live process to SIGTERM: it exits, or it handles or ignores the
  signal and keeps running.\<close>

datatype on_term = Exits | Ignores

datatype signal = SIGTERM | SIGKILL

text \<open>The calls on the file system that bear on the table file, each with the path it is
  made on: opening a file for writing with truncation, writing the JSON of a list, closing,
  and renaming one path to another.\<close>

datatype fs_call =
    OpenTrunc string
  | WriteAll string "ProcessInfo list"
  | Close string
  | Rename string string

text \<open>What the supervisor does to the outside, in order.\<close>

datatype effect =
    Kill int signal
  | Started string string "string list" int
  | Stdout string
  | LogClosed string
  | Slept nat

record world =
  table :: table_file
  table_writable :: bool
  logdir_ok :: bool
  logs :: "string \<Rightarrow> log_file"
  procs :: "int \<rightharpoonup> on_term"
  spawns :: "(int \<times> on_term) list"
  now :: go_time
  trace :: "effect list"
  table_seen :: "table_file list"
  syscalls :: "fs_call list"

text \<open>\<open>table_seen\<close> lists every content that the table file has had since the start, in
  order: each is what a process that reads the file at that moment finds. \<open>syscalls\<close>
  lists the calls that the supervisor has made on the file system for the table.\<close>

text \<open>The errors of the package, one constructor for each \<^verbatim>\<open>fmt.Errorf\<close>, each error
  passed on from the standard library and each \<^verbatim>\<open>console.Fatal\<close> of the callers.\<close>

datatype error =
    ReadFailed
  | DecodeFailed
  | MarshalFailed
  | WriteFailed
  | NotFound string
  | NotRunning string string
  | LogDirFailed
  | LogOpenFailed
  | StartFailed
  | TrackFailed error
  | LogNotFound string
  | OpenFailed
  | TokenTooLong
  | AlreadyRunning string int
  | NoCommand
  | DaemonFailed error

subsection \<open>Paths\<close>

text \<open>\<^verbatim>\<open>filepath.Join\<close> on two clean path elements.\<close>

definition filepath_Join :: "string \<Rightarrow> string \<Rightarrow> string" where
  "filepath_Join a b = a @ ''/'' @ b"

definition ProcessFile :: string where
  "ProcessFile = ''processes.json''"

definition LogDir :: string where
  "LogDir = ''logs''"

definition GetProcessFile :: "ProcessManager \<Rightarrow> string" where
  "GetProcessFile pm = filepath_Join (SboxDir pm) ProcessFile"

definition GetLogDir :: "ProcessManager \<Rightarrow> string" where
  "GetLogDir pm = filepath_Join (SboxDir pm) LogDir"

definition GetLogFile :: "ProcessManager \<Rightarrow> string \<Rightarrow> string" where
  "GetLogFile pm name = filepath_Join (GetLogDir pm) (name @ ''.log'')"

subsection \<open>The JSON encoding of the table\<close>

definition byte :: "char \<Rightarrow> nat" where
  "byte c = of_char c"

text \<open>A continuation byte of UTF-8.\<close>

definition cont :: "char \<Rightarrow> bool" where
  "cont c = (0x80 \<le> byte c \<and> byte c \<le> 0xBF)"

text \<open>The range of the second byte after the lead byte \<open>a\<close> of a sequence of three or four
  bytes (no overlong forms, no surrogates, nothing above U+10FFFF).\<close>

definition second_ok :: "char \<Rightarrow> char \<Rightarrow> bool" where
  "second_ok a b =
     ((if byte a = 0xE0 then 0xA0 else if byte a = 0xF0 then 0x90 else 0x80) \<le> byte b
      \<and> byte b \<le> (if byte a = 0xED then 0x9F else if byte a = 0xF4 then 0x8F else 0xBF))"

text \<open>\<^verbatim>\<open>utf8.DecodeRuneInString\<close>: the width of the valid UTF-8 sequence at the head of the
  string, and 0 when the string is empty or its head is not valid UTF-8.\<close>

fun rune_len :: "string \<Rightarrow> nat" where
  "rune_len [] = 0"
| "rune_len (a # s) =
     (if byte a < 0x80 then 1
      else if 0xC2 \<le> byte a \<and> byte a \<le> 0xDF
      then (case s of b # s' \<Rightarrow> if cont b then 2 else 0 | [] \<Rightarrow> 0)
      else if 0xE0 \<le> byte a \<and> byte a \<le> 0xEF
      then (case s of b # c # s' \<Rightarrow> if second_ok a b \<and> cont c then 3 else 0 | _ \<Rightarrow> 0)
      else if 0xF0 \<le> byte a \<and> byte a \<le> 0xF4
      then (case s of b # c # d # s' \<Rightarrow> if second_ok a b \<and> cont c \<and> cont d then 4 else 0
                    | _ \<Rightarrow> 0)
      else 0)"

text \<open>The UTF-8 bytes of U+FFFD.\<close>

definition replacement :: string where
  "replacement = [CHR 0xEF, CHR 0xBF, CHR 0xBD]"

text \<open>
  A Go string after \<^verbatim>\<open>json.Marshal\<close> and \<^verbatim>\<open>json.Unmarshal\<close>: the encoder writes every byte
  that is not part of a valid UTF-8 sequence as the escape of U+FFFD, which the decoder
  reads as that character; valid sequences come back as they are.
\<close>

function coerce :: "string \<Rightarrow> string" where
  "coerce s =
     (if s = [] then []
      else if rune_len s = 0 then replacement @ coerce (tl s)
      else take (rune_len s) s @ coerce (drop (rune_len s) s))"
  by pat_completeness auto
termination
  by (relation "measure length") auto

declare coerce.simps [simp del]
declare rune_len.simps [simp del]

text \<open>A record after \<^verbatim>\<open>json.MarshalIndent\<close> and \<^verbatim>\<open>json.Unmarshal\<close>. The integer and the
  time come back as they are.\<close>

definition json_roundtrip :: "ProcessInfo \<Rightarrow> ProcessInfo" where
  "json_roundtrip p =
     p\<lparr>Name := coerce (Name p), Command := coerce (Command p), Status := coerce (Status p),
       LogFile := coerce (LogFile p), Project := coerce (Project p)\<rparr>"

text \<open>\<^verbatim>\<open>json.MarshalIndent\<close> returns an error for a record whose time has a year outside
  0..9999 (\<^verbatim>\<open>Time.MarshalJSON\<close>), and for nothing else in a \<^verbatim>\<open>[]ProcessInfo\<close>.\<close>

definition marshal_ok :: "ProcessInfo \<Rightarrow> bool" where
  "marshal_ok p = (0 \<le> year (StartTime p) \<and> year (StartTime p) \<le> 9999)"

subsection \<open>The record store\<close>

text \<open>\<^verbatim>\<open>LoadProcesses\<close>: a missing file is the empty table; a file that cannot be read or
  decoded is an error. A list that cannot be marshalled has no JSON: \<open>Table\<close> of such a
  list stands for no file that can exist, and is read as malformed.\<close>

definition LoadProcesses :: "world \<Rightarrow> error + ProcessInfo list" where
  "LoadProcesses w =
     (case table w of
        Absent \<Rightarrow> Inr []
      | Unreadable \<Rightarrow> Inl ReadFailed
      | Malformed bs \<Rightarrow> Inl DecodeFailed
      | Table ps \<Rightarrow>
          (if list_all marshal_ok ps then Inr (map json_roundtrip ps) else Inl DecodeFailed))"

text \<open>The three calls that \<^verbatim>\<open>os.WriteFile\<close> makes. After the open the file is empty;
  after the write it holds the JSON of the list.\<close>

definition sys_open_trunc :: "string \<Rightarrow> world \<Rightarrow> world" where
  "sys_open_trunc name w =
     w\<lparr>table := Malformed [], table_seen := table_seen w @ [Malformed []],
       syscalls := syscalls w @ [OpenTrunc name]\<rparr>"

definition sys_write_all :: "string \<Rightarrow> ProcessInfo list \<Rightarrow> world \<Rightarrow> world" where
  "sys_write_all name ps w =
     w\<lparr>table := Table ps, table_seen := table_seen w @ [Table ps],
       syscalls := syscalls w @ [WriteAll name ps]\<rparr>"

definition sys_close :: "string \<Rightarrow> world \<Rightarrow> world" where
  "sys_close name w = w\<lparr>syscalls := syscalls w @ [Close name]\<rparr>"

text \<open>
  \<^verbatim>\<open>os.WriteFile(name, data, perm)\<close> on the table file: it opens \<open>name\<close> itself with
  \<^verbatim>\<open>O_WRONLY|O_CREATE|O_TRUNC\<close>, writes and closes. When the file cannot be opened for
  writing nothing happens to it.
\<close>

definition os_WriteFile :: "string \<Rightarrow> ProcessInfo list \<Rightarrow> world \<Rightarrow> error option \<times> world" where
  "os_WriteFile name ps w =
     (if table_writable w
      then (None, sys_close name (sys_write_all name ps (sys_open_trunc name w)))
      else (Some WriteFailed, w))"

text \<open>\<^verbatim>\<open>SaveProcesses\<close>: the error of \<^verbatim>\<open>json.MarshalIndent\<close> is returned before anything is
  written.\<close>

definition SaveProcesses :: "ProcessManager \<Rightarrow> ProcessInfo list \<Rightarrow> world \<Rightarrow> error option \<times> world" where
  "SaveProcesses pm processes w =
     (if \<not> list_all marshal_ok processes then (Some MarshalFailed, w)
      else os_WriteFile (GetProcessFile pm) processes w)"

text \<open>\<^verbatim>\<open>AddProcess\<close>: a load error is replaced by the empty list.\<close>

definition AddProcess :: "ProcessManager \<Rightarrow> ProcessInfo \<Rightarrow> world \<Rightarrow> error option \<times> world" where
  "AddProcess pm info w =
     (let processes = (case LoadProcesses w of Inl err \<Rightarrow> [] | Inr ps \<Rightarrow> ps);
          filtered = filter (\<lambda>p. Name p \<noteq> Name info) processes
      in SaveProcesses pm (filtered @ [info]) w)"

definition RemoveProcess :: "ProcessManager \<Rightarrow> string \<Rightarrow> world \<Rightarrow> error option \<times> world" where
  "RemoveProcess pm name w =
     (case LoadProcesses w of
        Inl err \<Rightarrow> (Some err, w)
      | Inr processes \<Rightarrow> SaveProcesses pm (filter (\<lambda>p. Name p \<noteq> name) processes) w)"

text \<open>\<^verbatim>\<open>GetProcess\<close> returns the first record with the name.\<close>

definition GetProcess :: "ProcessManager \<Rightarrow> string \<Rightarrow> world \<Rightarrow> error + ProcessInfo" where
  "GetProcess pm name w =
     (case LoadProcesses w of
        Inl err \<Rightarrow> Inl err
      | Inr processes \<Rightarrow>
          (case find (\<lambda>p. Name p = name) processes of
             Some p \<Rightarrow> Inr p
           | None \<Rightarrow> Inl (NotFound name)))"

subsection \<open>Liveness and signals\<close>

text \<open>\<^verbatim>\<open>IsProcessRunning\<close>: \<^verbatim>\<open>os.FindProcess\<close> always succeeds on Unix (the source says
  so), and signal 0 is accepted exactly by the processes that exist.\<close>

definition IsProcessRunning :: "world \<Rightarrow> int \<Rightarrow> bool" where
  "IsProcessRunning w pid = (procs w pid \<noteq> None)"

text \<open>\<^verbatim>\<open>process.Signal(sig)\<close> for SIGTERM and SIGKILL; the result is \<^verbatim>\<open>err == nil\<close>.
  A process that is gone gives an error. SIGKILL ends a live process; SIGTERM ends it
  unless it ignores the signal.\<close>

definition Signal :: "int \<Rightarrow> signal \<Rightarrow> world \<Rightarrow> bool \<times> world" where
  "Signal pid sig w =
     (let w' = w\<lparr>trace := trace w @ [Kill pid sig]\<rparr>
      in case procs w pid of
           None \<Rightarrow> (False, w')
         | Some r \<Rightarrow>
             (if sig = SIGTERM \<and> r = Ignores then (True, w')
              else (True, w'\<lparr>procs := (procs w)(pid := None)\<rparr>)))"

definition Sleep :: "nat \<Rightarrow> world \<Rightarrow> world" where
  "Sleep ms w = w\<lparr>trace := trace w @ [Slept ms]\<rparr>"

subsection \<open>Reconciliation\<close>

text \<open>The loop of \<^verbatim>\<open>UpdateProcessStatus\<close>: the list with the dead running records marked,
  and the flag \<^verbatim>\<open>updated\<close>.\<close>

primrec mark_dead :: "world \<Rightarrow> ProcessInfo list \<Rightarrow> ProcessInfo list \<times> bool" where
  "mark_dead w [] = ([], False)"
| "mark_dead w (p # ps) =
     (let (ps', updated) = mark_dead w ps
      in if Status p = ''running''
         then (if \<not> IsProcessRunning w (PID p)
               then (p\<lparr>Status := ''stopped''\<rparr> # ps', True)
               else (p # ps', updated))
         else (p # ps', updated))"

definition UpdateProcessStatus :: "ProcessManager \<Rightarrow> world \<Rightarrow> (error + ProcessInfo list) \<times> world" where
  "UpdateProcessStatus pm w =
     (case LoadProcesses w of
        Inl err \<Rightarrow> (Inl err, w)
      | Inr processes \<Rightarrow>
          (let (processes', updated) = mark_dead w processes
           in (Inr processes',
               if updated then snd (SaveProcesses pm processes' w) else w)))"

definition GetRunningProcesses :: "ProcessManager \<Rightarrow> world \<Rightarrow> (error + ProcessInfo list) \<times> world" where
  "GetRunningProcesses pm w =
     (case UpdateProcessStatus pm w of
        (Inl err, w') \<Rightarrow> (Inl err, w')
      | (Inr processes, w') \<Rightarrow>
          (Inr (filter (\<lambda>p. Status p = ''running'' \<and> IsProcessRunning w' (PID p)) processes), w'))"

subsection \<open>Stopping\<close>

text \<open>The loop of \<^verbatim>\<open>StopProcess\<close> that marks the first record with the name and breaks.
  In \<^verbatim>\<open>StopProcess\<close> itself \<^verbatim>\<open>os.FindProcess\<close> does not fail (Unix), the errors of the
  second load and of the save are dropped, and a failed load leaves the list \<^verbatim>\<open>nil\<close>.\<close>

primrec stop_named :: "string \<Rightarrow> ProcessInfo list \<Rightarrow> ProcessInfo list" where
  "stop_named name [] = []"
| "stop_named name (p # ps) =
     (if Name p = name then p\<lparr>Status := ''stopped''\<rparr> # ps else p # stop_named name ps)"

definition StopProcess :: "ProcessManager \<Rightarrow> string \<Rightarrow> world \<Rightarrow> error option \<times> world" where
  "StopProcess pm name w =
     (case GetProcess pm name w of
        Inl err \<Rightarrow> (Some err, w)
      | Inr info \<Rightarrow>
          (if Status info \<noteq> ''running'' then (Some (NotRunning name (Status info)), w)
           else
             (let (ok, w1) = Signal (PID info) SIGTERM w;
                  w2 = (if \<not> ok then snd (Signal (PID info) SIGKILL w1) else w1);
                  w3 = Sleep 100 w2;
                  processes = (case LoadProcesses w3 of Inl err \<Rightarrow> [] | Inr ps \<Rightarrow> ps)
              in (None, snd (SaveProcesses pm (stop_named name processes) w3)))))"

subsection \<open>Starting a daemon and its watcher\<close>

definition banner :: "go_time \<Rightarrow> string \<Rightarrow> string \<Rightarrow> string" where
  "banner t command workdir =
     [CHR 0x0A] @ ''=== sbox daemon started at '' @ rfc3339 t @ '' ==='' @ [CHR 0x0A]
     @ ''Command: '' @ command @ [CHR 0x0A]
     @ ''Workdir: '' @ workdir @ [CHR 0x0A]
     @ ''========================================='' @ [CHR 0x0A, CHR 0x0A]"

text \<open>\<^verbatim>\<open>os.OpenFile(logFile, O_CREATE|O_WRONLY|O_APPEND, 0644)\<close> followed by the four
  \<^verbatim>\<open>Fprintf\<close>: \<open>None\<close> when the file cannot be opened.\<close>

definition open_and_write :: "string \<Rightarrow> string \<Rightarrow> world \<Rightarrow> world option" where
  "open_and_write logFile text w =
     (case logs w logFile of
        LogDenied \<Rightarrow> None
      | NoLog \<Rightarrow> Some (w\<lparr>logs := (logs w)(logFile := Log text)\<rparr>)
      | Log old \<Rightarrow> Some (w\<lparr>logs := (logs w)(logFile := Log (old @ text))\<rparr>))"

definition StartDaemon ::
  "ProcessManager \<Rightarrow> string \<Rightarrow> string \<Rightarrow> string list \<Rightarrow> string \<Rightarrow> world \<Rightarrow> (error + ProcessInfo) \<times> world" where
  "StartDaemon pm name command env workdir w =
     (if \<not> logdir_ok w then (Inl LogDirFailed, w)
      else
        (let logFile = GetLogFile pm name
         in case open_and_write logFile (banner (now w) command workdir) w of
              None \<Rightarrow> (Inl LogOpenFailed, w)
            | Some w1 \<Rightarrow>
                (case spawns w1 of
                   [] \<Rightarrow> (Inl StartFailed, w1\<lparr>trace := trace w1 @ [LogClosed logFile]\<rparr>)
                 | (pid, r) # rest \<Rightarrow>
                     (let w2 = w1\<lparr>procs := (procs w1)(pid \<mapsto> r), spawns := rest,
                                  trace := trace w1 @ [Started command workdir env pid]\<rparr>;
                          info = \<lparr>PID = pid, Name = name, Command = command,
                                  StartTime = now w2, Status = ''running'',
                                  LogFile = logFile, Project = ProjectName pm\<rparr>
                      in case AddProcess pm info w2 of
                           (Some err, w3) \<Rightarrow> (Inl (TrackFailed err), w3)
                         | (None, w3) \<Rightarrow> (Inr info, w3)))))"

text \<open>The loop of the watcher that marks the first record with the PID and breaks.\<close>

primrec stop_pid :: "int \<Rightarrow> ProcessInfo list \<Rightarrow> ProcessInfo list" where
  "stop_pid pid [] = []"
| "stop_pid pid (p # ps) =
     (if PID p = pid then p\<lparr>Status := ''stopped''\<rparr> # ps else p # stop_pid pid ps)"

text \<open>The goroutine that \<^verbatim>\<open>StartDaemon\<close> starts, from the return of \<^verbatim>\<open>cmd.Wait()\<close> on: it
  runs once the child \<open>PID info\<close> has terminated.\<close>

definition watcher :: "ProcessManager \<Rightarrow> ProcessInfo \<Rightarrow> world \<Rightarrow> world" where
  "watcher pm info w =
     (let w1 = w\<lparr>trace := trace w @ [LogClosed (LogFile info)]\<rparr>;
          processes = (case LoadProcesses w1 of Inl err \<Rightarrow> [] | Inr ps \<Rightarrow> ps)
      in snd (SaveProcesses pm (stop_pid (PID info) processes) w1))"

subsection \<open>Reading logs\<close>

text \<open>Go's \<^verbatim>\<open>int\<close> is 64 bits wide and wraps around.\<close>

definition wrap64 :: "int \<Rightarrow> int" where
  "wrap64 x = (x + 2 ^ 63) mod 2 ^ 64 - 2 ^ 63"

text \<open>\<^verbatim>\<open>bufio.MaxScanTokenSize\<close>, the buffer limit of a \<^verbatim>\<open>bufio.NewScanner\<close>.\<close>

definition MaxScanTokenSize :: nat where
  "MaxScanTokenSize = 64 * 1024"

definition dropCR :: "string \<Rightarrow> string" where
  "dropCR s = (if s \<noteq> [] \<and> last s = CHR 0x0D then butlast s else s)"

definition not_nl :: "char \<Rightarrow> bool" where
  "not_nl c = (c \<noteq> CHR 0x0A)"

text \<open>
  The loop \<^verbatim>\<open>for scanner.Scan() { lines = append(lines, scanner.Text()) }\<close> with the
  default split function \<^verbatim>\<open>bufio.ScanLines\<close>, and \<^verbatim>\<open>scanner.Err()\<close> after it. A line ends
  at a newline or at the end of the file, a carriage return before the newline is dropped,
  and a line that does not fit the buffer stops the scan with \<^verbatim>\<open>bufio.ErrTooLong\<close>.
\<close>

function scan_all :: "string \<Rightarrow> string list \<times> error option" where
  "scan_all data =
     (if data = [] then ([], None)
      else if MaxScanTokenSize \<le> length (takeWhile not_nl data) then ([], Some TokenTooLong)
      else (case dropWhile not_nl data of
              [] \<Rightarrow> ([dropCR (takeWhile not_nl data)], None)
            | nl # rest \<Rightarrow>
                (dropCR (takeWhile not_nl data) # fst (scan_all rest), snd (scan_all rest))))"
  by pat_completeness auto
termination
proof (relation "measure length")
  show "wf (measure length)" by simp
next
  fix data :: string and nl rest
  assume "dropWhile not_nl data = nl # rest"
  then have "length (dropWhile not_nl data) = Suc (length rest)" by simp
  moreover have "length (dropWhile not_nl data) \<le> length data" by (rule length_dropWhile_le)
  ultimately show "(rest, data) \<in> measure length" by simp
next
  fix data :: string and nl rest
  assume "dropWhile not_nl data = nl # rest"
  then have "length (dropWhile not_nl data) = Suc (length rest)" by simp
  moreover have "length (dropWhile not_nl data) \<le> length data" by (rule length_dropWhile_le)
  ultimately show "(rest, data) \<in> measure length" by simp
qed

declare scan_all.simps [simp del]

text \<open>\<^verbatim>\<open>tailLines\<close>: every \<^verbatim>\<open>fmt.Println\<close> is a \<open>Stdout\<close> effect.\<close>

definition tailLines :: "string \<Rightarrow> int \<Rightarrow> world \<Rightarrow> error option \<times> world" where
  "tailLines filename n w =
     (case logs w filename of
        NoLog \<Rightarrow> (Some OpenFailed, w)
      | LogDenied \<Rightarrow> (Some OpenFailed, w)
      | Log data \<Rightarrow>
          (let (lines, err) = scan_all data;
               start = wrap64 (int (length lines) - n);
               start = (if start < 0 then 0 else start)
           in (err, w\<lparr>trace := trace w @ map Stdout (drop (nat start) lines)\<rparr>)))"

text \<open>The loop of \<^verbatim>\<open>tailFollow\<close> after the seek to the end of the file: while nothing is
  appended, every read is at the end of the file, and the loop sleeps and goes on.\<close>

partial_function (option) follow_loop :: "world \<Rightarrow> (error option \<times> world) option" where
  "follow_loop w = follow_loop (Sleep 100 w)"

definition tailFollow :: "string \<Rightarrow> world \<Rightarrow> (error option \<times> world) option" where
  "tailFollow filename w =
     (case logs w filename of
        NoLog \<Rightarrow> Some (Some OpenFailed, w)
      | LogDenied \<Rightarrow> Some (Some OpenFailed, w)
      | Log data \<Rightarrow> follow_loop w)"

text \<open>\<^verbatim>\<open>ReadLogs\<close>. The result is \<open>None\<close> when the call does not return.\<close>

definition ReadLogs :: "ProcessManager \<Rightarrow> string \<Rightarrow> int \<Rightarrow> bool \<Rightarrow> world \<Rightarrow> (error option \<times> world) option" where
  "ReadLogs pm name lines follow w =
     (let logFile = GetLogFile pm name
      in if logs w logFile = NoLog then Some (Some (LogNotFound name), w)
         else if follow then tailFollow logFile w
         else Some (tailLines logFile lines w))"

subsection \<open>The commands of package main\<close>

text \<open>The branch \<^verbatim>\<open>if detach\<close> of \<^verbatim>\<open>runRun\<close>. \<open>name\<close> is the flag \<^verbatim>\<open>--name\<close>, \<open>command\<close> the
  joined arguments, \<open>cfg_cmd\<close> the \<^verbatim>\<open>cmd\<close> of the configuration; \<^verbatim>\<open>console.Fatal\<close> ends the
  command with an error. An empty name becomes \<^verbatim>\<open>filepath.Base(projectRoot)\<close>, which is
  the \<open>ProjectName\<close> of the manager that \<^verbatim>\<open>NewProcessManager\<close> builds.\<close>

definition runRun_detach ::
  "ProcessManager \<Rightarrow> string \<Rightarrow> string \<Rightarrow> string \<Rightarrow> string list \<Rightarrow> string \<Rightarrow> world \<Rightarrow> (error + ProcessInfo) \<times> world" where
  "runRun_detach pm name command cfg_cmd env workdir w =
     (let name = (if name = [] then ProjectName pm else name);
          existing = (case GetProcess pm name w of Inl err \<Rightarrow> None | Inr p \<Rightarrow> Some p)
      in case existing of
           Some p \<Rightarrow>
             (if Status p = ''running'' \<and> IsProcessRunning w (PID p)
              then (Inl (AlreadyRunning name (PID p)), w)
              else (let cmdToRun = (if command = [] then cfg_cmd else command)
                    in if cmdToRun = [] then (Inl NoCommand, w)
                       else (case StartDaemon pm name cmdToRun env workdir w of
                               (Inl err, w') \<Rightarrow> (Inl (DaemonFailed err), w')
                             | (Inr info, w') \<Rightarrow> (Inr info, w'))))
         | None \<Rightarrow>
             (let cmdToRun = (if command = [] then cfg_cmd else command)
              in if cmdToRun = [] then (Inl NoCommand, w)
                 else (case StartDaemon pm name cmdToRun env workdir w of
                         (Inl err, w') \<Rightarrow> (Inl (DaemonFailed err), w')
                       | (Inr info, w') \<Rightarrow> (Inr info, w'))))"

text \<open>The process list of \<^verbatim>\<open>runPs\<close> (\<^verbatim>\<open>sbox ps\<close>, with \<^verbatim>\<open>--all\<close> or without).\<close>

definition runPs :: "ProcessManager \<Rightarrow> bool \<Rightarrow> world \<Rightarrow> (error + ProcessInfo list) \<times> world" where
  "runPs pm showAll w = (if showAll then UpdateProcessStatus pm w else GetRunningProcesses pm w)"

text \<open>The two process lists of \<^verbatim>\<open>runStatus\<close> (\<^verbatim>\<open>sbox status\<close>): the running processes and
  all of them; an error leaves the list \<^verbatim>\<open>nil\<close>.\<close>

definition runStatus :: "ProcessManager \<Rightarrow> world \<Rightarrow> (ProcessInfo list \<times> ProcessInfo list) \<times> world" where
  "runStatus pm w =
     (case GetRunningProcesses pm w of
        (r, w') \<Rightarrow>
          ((case r of Inl err \<Rightarrow> [] | Inr ps \<Rightarrow> ps,
            case LoadProcesses w' of Inl err \<Rightarrow> [] | Inr ps \<Rightarrow> ps), w'))"

subsection \<open>The properties, in the words of the specification\<close>

text \<open>The number of records of a table that carry a name.\<close>

definition count_name :: "string \<Rightarrow> ProcessInfo list \<Rightarrow> nat" where
  "count_name name ps = length (filter (\<lambda>p. Name p = name) ps)"

text \<open>A record is stale when it says \<open>running\<close> and the liveness probe says dead;
  reconciling a record moves a stale one to \<open>stopped\<close> and leaves any other as it is.\<close>

definition stale :: "world \<Rightarrow> ProcessInfo \<Rightarrow> bool" where
  "stale w p = (Status p = ''running'' \<and> \<not> IsProcessRunning w (PID p))"

definition reconciled :: "world \<Rightarrow> ProcessInfo \<Rightarrow> ProcessInfo" where
  "reconciled w p = (if stale w p then p\<lparr>Status := ''stopped''\<rparr> else p)"

text \<open>A string that the JSON encoding gives back as it is.\<close>

definition valid_utf8 :: "string \<Rightarrow> bool" where
  "valid_utf8 s = (coerce s = s)"

text \<open>
  The worlds that the operations of the store reach from an empty table when every name
  that is added or started is valid UTF-8. Between two operations the rest of the world
  may change in any way (processes start and exit, logs grow, the file becomes
  read-only), but nothing else writes the table file.
\<close>

inductive reachable :: "ProcessManager \<Rightarrow> world \<Rightarrow> bool" for pm :: ProcessManager where
  empty: "LoadProcesses w = Inr [] \<Longrightarrow> reachable pm w"
| other: "reachable pm w \<Longrightarrow> table w' = table w \<Longrightarrow> reachable pm w'"
| add: "reachable pm w \<Longrightarrow> valid_utf8 (Name info) \<Longrightarrow> reachable pm (snd (AddProcess pm info w))"
| remove: "reachable pm w \<Longrightarrow> reachable pm (snd (RemoveProcess pm name w))"
| update: "reachable pm w \<Longrightarrow> reachable pm (snd (UpdateProcessStatus pm w))"
| stop: "reachable pm w \<Longrightarrow> reachable pm (snd (StopProcess pm name w))"
| start: "reachable pm w \<Longrightarrow> valid_utf8 name \<Longrightarrow>
            reachable pm (snd (StartDaemon pm name command env workdir w))"
| watch: "reachable pm w \<Longrightarrow> reachable pm (watcher pm info w)"

text \<open>The lines of a file: the pieces between newlines, and the piece after the last
  newline when it is not empty. \<open>cur\<close> holds the bytes of the line read so far.\<close>

fun file_lines :: "string \<Rightarrow> string \<Rightarrow> string list" where
  "file_lines cur [] = (if cur = [] then [] else [cur])"
| "file_lines cur (c # cs) =
     (if c = CHR 0x0A then cur # file_lines [] cs else file_lines (cur @ [c]) cs)"

text \<open>A record as it comes out of the table file: it can be marshalled, and the JSON
  encoding gives it back as it is.\<close>

definition stored :: "ProcessInfo \<Rightarrow> bool" where
  "stored p = (marshal_ok p \<and> json_roundtrip p = p)"

definition ascii :: "string \<Rightarrow> bool" where
  "ascii s = (\<forall>c\<in>set s. byte c < 0x80)"

text \<open>The invariant of the store: the table file can be loaded and no two of its records
  carry the same name.\<close>

definition table_ok :: "world \<Rightarrow> bool" where
  "table_ok w = (case LoadProcesses w of Inl err \<Rightarrow> False | Inr ps \<Rightarrow> distinct (map Name ps))"

subsection \<open>Example inputs\<close>

definition pm0 :: ProcessManager where
  "pm0 = \<lparr>SboxDir = ''/app/.sbox'', ProjectRoot = ''/app'', ProjectName = ''app''\<rparr>"

definition now0 :: go_time where
  "now0 = GoTime 2026 ''2026-01-01T00:00:00Z''"

definition daemon :: "string \<Rightarrow> int \<Rightarrow> string \<Rightarrow> ProcessInfo" where
  "daemon name pid status =
     \<lparr>PID = pid, Name = name, Command = ''sleep 5'', StartTime = now0,
      Status = status, LogFile = GetLogFile pm0 name, Project = ''app''\<rparr>"

text \<open>A world with no table file, no log and no process.\<close>

definition world0 :: world where
  "world0 = \<lparr>table = Absent, table_writable = True, logdir_ok = True,
             logs = (\<lambda>f. NoLog), procs = Map.empty, spawns = [],
             now = now0, trace = [], table_seen = [], syscalls = []\<rparr>"

text \<open>The table holds \<open>web\<close> as running with PID 100, and the process is gone.\<close>

definition world_stale :: world where
  "world_stale = world0\<lparr>table := Table [daemon ''web'' 100 ''running'']\<rparr>"

text \<open>The table holds \<open>web\<close> as stopped.\<close>

definition world_stopped :: world where
  "world_stopped = world0\<lparr>table := Table [daemon ''web'' 100 ''stopped'']\<rparr>"

text \<open>The same table, and process 100 is alive and ignores SIGTERM.\<close>

definition world_stubborn :: world where
  "world_stubborn = world_stale\<lparr>procs := [100 \<mapsto> Ignores]\<rparr>"

text \<open>The same table, and process 100 is alive and exits on SIGTERM.\<close>

definition world_live :: world where
  "world_live = world_stale\<lparr>procs := [100 \<mapsto> Exits]\<rparr>"

text \<open>PID 100 was used by \<open>old\<close>, which has stopped, and is used again by \<open>web\<close>.\<close>

definition world_reused :: world where
  "world_reused =
     world0\<lparr>table := Table [daemon ''old'' 100 ''stopped'', daemon ''web'' 100 ''running'']\<rparr>"

text \<open>The name \<^verbatim>\<open>web\xff\<close>, whose last byte is not valid UTF-8, and what the JSON encoding
  makes of it.\<close>

definition name_ff :: string where
  "name_ff = ''web'' @ [CHR 0xFF]"

definition name_fffd :: string where
  "name_fffd = ''web'' @ replacement"

text \<open>No table file yet, and the next two children get the PIDs 100 and 200.\<close>

definition world_spawn :: world where
  "world_spawn = world0\<lparr>spawns := [(100, Exits), (200, Exits)]\<rparr>"

text \<open>The table after \<^verbatim>\<open>AddProcess\<close> was called twice with that name, for the PIDs 100 and
  200.\<close>

definition world_added_twice :: world where
  "world_added_twice =
     snd (AddProcess pm0 (daemon name_ff 200 ''running'')
            (snd (AddProcess pm0 (daemon name_ff 100 ''running'') world0)))"

text \<open>\<^verbatim>\<open>sbox run -d --name\<close> with that name and the command \<^verbatim>\<open>sleep 5\<close>, once and then once
  more.\<close>

definition started_once :: "(error + ProcessInfo) \<times> world" where
  "started_once = runRun_detach pm0 name_ff ''sleep 5'' [] [] ''/app'' world_spawn"

definition started_twice :: "(error + ProcessInfo) \<times> world" where
  "started_twice = runRun_detach pm0 name_ff ''sleep 5'' [] [] ''/app'' (snd started_once)"

text \<open>After that, process 100 exits, \<^verbatim>\<open>sbox ps --all\<close> reconciles the table, and the
  same command is run with the name that the table now holds; the next child gets the
  PID 300.\<close>

definition first_exited :: world where
  "first_exited =
     (snd started_twice)\<lparr>procs := (procs (snd started_twice))(100 := None),
                          spawns := [(300, Exits)]\<rparr>"

definition after_ps :: world where
  "after_ps = snd (runPs pm0 True first_exited)"

definition started_third :: "(error + ProcessInfo) \<times> world" where
  "started_third = runRun_detach pm0 name_fffd ''sleep 5'' [] [] ''/app'' after_ps"

text \<open>The table file is not JSON.\<close>

definition world_corrupt :: world where
  "world_corrupt = world0\<lparr>table := Malformed ''[{''\<rparr>"

text \<open>A log of three lines for \<open>web\<close>.\<close>

definition log_abc :: string where
  "log_abc = ''a'' @ CHR 0x0A # ''b'' @ CHR 0x0A # ''c'' @ CHR 0x0A # []"

definition world_log :: world where
  "world_log = world0\<lparr>logs := (\<lambda>f. NoLog)(GetLogFile pm0 ''web'' := Log log_abc)\<rparr>"

text \<open>A log for \<open>web\<close> whose second line has 65536 bytes.\<close>

definition log_long :: string where
  "log_long = ''a'' @ CHR 0x0A # replicate 65536 (CHR ''x'') @ CHR 0x0A # []"

definition world_long_line :: world where
  "world_long_line = world0\<lparr>logs := (\<lambda>f. NoLog)(GetLogFile pm0 ''web'' := Log log_long)\<rparr>"

section \<open>Lemmas\<close>

subsection \<open>UTF-8 and the JSON round trip\<close>

lemma rune_len_le: "rune_len s \<le> length s"
  by (cases s) (auto simp: rune_len.simps split: list.splits)

lemma rune_len_prefix: "0 < rune_len s \<Longrightarrow> rune_len (take (rune_len s) s @ t) = rune_len s"
  by (cases s) (auto simp: rune_len.simps split: list.splits if_splits)

lemma coerce_Nil [simp]: "coerce [] = []"
  by (simp add: coerce.simps)

lemma coerce_prefix:
  assumes "0 < rune_len s"
  shows "coerce (take (rune_len s) s @ t) = take (rune_len s) s @ coerce t"
proof -
  let ?u = "take (rune_len s) s"
  have len: "length ?u = rune_len s" using rune_len_le [of s] by simp
  have ne: "?u @ t \<noteq> []" using assms len by auto
  have rl: "rune_len (?u @ t) = rune_len s" using assms by (rule rune_len_prefix)
  have "take (rune_len s) (?u @ t) = ?u" "drop (rune_len s) (?u @ t) = t"
    using len by simp_all
  then show ?thesis
    using assms ne rl by (subst coerce.simps) simp
qed

lemma rune_len_replacement: "rune_len (replacement @ t) = 3"
  by (simp add: replacement_def rune_len.simps byte_def cont_def second_ok_def)

lemma coerce_replacement: "coerce (replacement @ t) = replacement @ coerce t"
  by (subst coerce.simps) (simp add: rune_len_replacement, simp add: replacement_def)

lemma coerce_idem: "coerce (coerce s) = coerce s"
proof (induction s rule: coerce.induct)
  case (1 s)
  show ?case
  proof (cases "s = []")
    case True
    then show ?thesis by simp
  next
    case ne: False
    show ?thesis
    proof (cases "rune_len s = 0")
      case True
      have "coerce s = replacement @ coerce (tl s)"
        using ne True by (subst coerce.simps) simp
      with "1.IH"(1) [OF ne True] show ?thesis by (simp add: coerce_replacement)
    next
      case False
      have "coerce s = take (rune_len s) s @ coerce (drop (rune_len s) s)"
        using ne False by (subst coerce.simps) simp
      with "1.IH"(2) [OF ne False] False show ?thesis by (simp add: coerce_prefix)
    qed
  qed
qed

lemma coerce_ascii_Cons: "byte a < 0x80 \<Longrightarrow> coerce (a # s) = a # coerce s"
  by (subst coerce.simps) (simp add: rune_len.simps)

lemma coerce_invalid_Cons: "rune_len (a # s) = 0 \<Longrightarrow> coerce (a # s) = replacement @ coerce s"
  by (subst coerce.simps) simp

lemma coerce_ascii: "ascii s \<Longrightarrow> coerce s = s"
  unfolding ascii_def by (induction s) (simp_all add: coerce_ascii_Cons)

lemma coerce_name_ff: "coerce name_ff = name_fffd"
  by (simp add: name_ff_def name_fffd_def coerce_ascii_Cons coerce_invalid_Cons
      rune_len.simps byte_def)

lemma name_ff_neq: "name_fffd \<noteq> name_ff"
  by (simp add: name_ff_def name_fffd_def replacement_def)

lemma json_roundtrip_fixed:
  "json_roundtrip p = p \<longleftrightarrow>
     coerce (Name p) = Name p \<and> coerce (Command p) = Command p \<and> coerce (Status p) = Status p
     \<and> coerce (LogFile p) = LogFile p \<and> coerce (Project p) = Project p"
proof
  assume a: "json_roundtrip p = p"
  have "Name (json_roundtrip p) = coerce (Name p)" "Command (json_roundtrip p) = coerce (Command p)"
    "Status (json_roundtrip p) = coerce (Status p)" "LogFile (json_roundtrip p) = coerce (LogFile p)"
    "Project (json_roundtrip p) = coerce (Project p)"
    by (simp_all add: json_roundtrip_def)
  then show "coerce (Name p) = Name p \<and> coerce (Command p) = Command p
      \<and> coerce (Status p) = Status p \<and> coerce (LogFile p) = LogFile p
      \<and> coerce (Project p) = Project p"
    unfolding a by simp
next
  assume "coerce (Name p) = Name p \<and> coerce (Command p) = Command p
      \<and> coerce (Status p) = Status p \<and> coerce (LogFile p) = LogFile p
      \<and> coerce (Project p) = Project p"
  then show "json_roundtrip p = p" by (simp add: json_roundtrip_def)
qed

lemma json_roundtrip_idem: "json_roundtrip (json_roundtrip p) = json_roundtrip p"
  by (simp add: json_roundtrip_def coerce_idem)

lemma Name_json_roundtrip [simp]: "Name (json_roundtrip p) = coerce (Name p)"
  by (simp add: json_roundtrip_def)

lemma PID_json_roundtrip [simp]: "PID (json_roundtrip p) = PID p"
  by (simp add: json_roundtrip_def)

lemma Status_json_roundtrip [simp]: "Status (json_roundtrip p) = coerce (Status p)"
  by (simp add: json_roundtrip_def)

lemma marshal_ok_json_roundtrip [simp]: "marshal_ok (json_roundtrip p) = marshal_ok p"
  by (simp add: json_roundtrip_def marshal_ok_def)

lemma marshal_ok_Status [simp]: "marshal_ok (p\<lparr>Status := s\<rparr>) = marshal_ok p"
  by (simp add: marshal_ok_def)

lemma coerce_stopped: "coerce ''stopped'' = ''stopped''"
  by (rule coerce_ascii) (simp add: ascii_def byte_def)

lemma stored_json_roundtrip: "marshal_ok p \<Longrightarrow> stored (json_roundtrip p)"
  by (simp add: stored_def json_roundtrip_idem)

lemma stored_stop: "stored p \<Longrightarrow> stored (p\<lparr>Status := ''stopped''\<rparr>)"
  by (simp add: stored_def json_roundtrip_fixed coerce_stopped)

lemma stored_valid: "stored p \<Longrightarrow> valid_utf8 (Name p)"
  by (simp add: stored_def json_roundtrip_fixed valid_utf8_def)

lemma map_json_roundtrip_stored: "list_all stored ps \<Longrightarrow> map json_roundtrip ps = ps"
  by (induction ps) (simp_all add: stored_def)

lemma list_all_stored_marshal: "list_all stored ps \<Longrightarrow> list_all marshal_ok ps"
  by (induction ps) (simp_all add: stored_def)

lemma json_roundtrip_daemon:
  "ascii name \<Longrightarrow> ascii status \<Longrightarrow> json_roundtrip (daemon name pid status) = daemon name pid status"
proof -
  assume n: "ascii name" and s: "ascii status"
  have "ascii (GetLogFile pm0 name)"
    using n by (auto simp: ascii_def GetLogFile_def GetLogDir_def filepath_Join_def LogDir_def
        pm0_def byte_def)
  moreover have "ascii ''sleep 5''" "ascii ''app''" by (simp_all add: ascii_def byte_def)
  ultimately show ?thesis
    using n s by (simp add: json_roundtrip_fixed daemon_def coerce_ascii)
qed

lemma marshal_ok_daemon [simp]: "marshal_ok (daemon name pid status)"
  by (simp add: marshal_ok_def daemon_def now0_def)

lemma ascii_words [simp]:
  "ascii ''web''" "ascii ''old''" "ascii ''api''" "ascii ''running''" "ascii ''stopped''"
  by (simp_all add: ascii_def byte_def)

subsection \<open>The record store\<close>

lemma SaveProcesses_eq:
  "SaveProcesses pm ps w =
     (if \<not> list_all marshal_ok ps then (Some MarshalFailed, w)
      else if table_writable w
      then (None, w\<lparr>table := Table ps, table_seen := table_seen w @ [Malformed [], Table ps],
                   syscalls := syscalls w @ [OpenTrunc (GetProcessFile pm),
                     WriteAll (GetProcessFile pm) ps, Close (GetProcessFile pm)]\<rparr>)
      else (Some WriteFailed, w))"
  by (simp add: SaveProcesses_def os_WriteFile_def sys_open_trunc_def sys_write_all_def
      sys_close_def)

lemma LoadProcesses_cong: "table w' = table w \<Longrightarrow> LoadProcesses w' = LoadProcesses w"
  by (simp add: LoadProcesses_def)

lemma LoadProcesses_trace [simp]: "LoadProcesses (w\<lparr>trace := t\<rparr>) = LoadProcesses w"
  by (simp add: LoadProcesses_def)

lemma LoadProcesses_stored: "LoadProcesses w = Inr ps \<Longrightarrow> list_all stored ps"
  by (auto simp: LoadProcesses_def list_all_iff stored_json_roundtrip
      split: table_file.splits if_splits)

lemma LoadProcesses_saved:
  "list_all marshal_ok ps \<Longrightarrow> table_writable w \<Longrightarrow>
   LoadProcesses (snd (SaveProcesses pm ps w)) = Inr (map json_roundtrip ps)"
  by (simp add: SaveProcesses_eq LoadProcesses_def)

lemma LoadProcesses_saved_stored:
  "list_all stored ps \<Longrightarrow> table_writable w \<Longrightarrow>
   LoadProcesses (snd (SaveProcesses pm ps w)) = Inr ps"
  by (simp add: LoadProcesses_saved list_all_stored_marshal map_json_roundtrip_stored)

lemma procs_SaveProcesses [simp]: "procs (snd (SaveProcesses pm ps w)) = procs w"
  by (simp add: SaveProcesses_eq)

lemma trace_SaveProcesses [simp]: "trace (snd (SaveProcesses pm ps w)) = trace w"
  by (simp add: SaveProcesses_eq)

lemma LoadProcesses_procs [simp]: "LoadProcesses (w\<lparr>procs := p\<rparr>) = LoadProcesses w"
  by (simp add: LoadProcesses_def)

lemma count_name_le_1: "distinct (map Name ps) \<Longrightarrow> count_name n ps \<le> 1"
proof (induction ps)
  case Nil
  then show ?case by (simp add: count_name_def)
next
  case (Cons p ps)
  show ?case
  proof (cases "Name p = n")
    case True
    from Cons.prems have "Name p \<notin> Name ` set ps" by simp
    with True have "\<forall>q\<in>set ps. Name q \<noteq> n" by (metis imageI)
    then have "filter (\<lambda>q. Name q = n) ps = []" by (simp add: filter_empty_conv)
    with True show ?thesis by (simp add: count_name_def)
  next
    case False
    with Cons show ?thesis by (simp add: count_name_def)
  qed
qed

lemma distinct_upsert:
  "distinct (map Name ps) \<Longrightarrow> distinct (map Name (filter (\<lambda>p. Name p \<noteq> Name info) ps @ [info]))"
  by (auto simp: distinct_map_filter)

lemma count_upsert: "count_name (Name info) (filter (\<lambda>p. Name p \<noteq> Name info) ps @ [info]) = 1"
  by (simp add: count_name_def)

lemma Name_stop_named [simp]: "map Name (stop_named n ps) = map Name ps"
  by (induction ps) auto

lemma Name_stop_pid [simp]: "map Name (stop_pid n ps) = map Name ps"
  by (induction ps) auto

lemma stored_stop_named: "list_all stored ps \<Longrightarrow> list_all stored (stop_named n ps)"
  by (induction ps) (simp_all add: stored_stop)

lemma stored_stop_pid: "list_all stored ps \<Longrightarrow> list_all stored (stop_pid n ps)"
  by (induction ps) (simp_all add: stored_stop)

lemma mark_dead_map: "mark_dead w ps = (map (reconciled w) ps, \<exists>p\<in>set ps. stale w p)"
  by (induction ps) (auto simp: reconciled_def stale_def split: prod.splits)

lemma Name_reconciled [simp]: "Name (reconciled w p) = Name p"
  by (simp add: reconciled_def)

lemma stored_reconciled: "list_all stored ps \<Longrightarrow> list_all stored (map (reconciled w) ps)"
  by (induction ps) (simp_all add: reconciled_def stored_stop)

subsection \<open>One record per name, for names that are valid UTF-8\<close>

lemma table_ok_cong: "table w' = table w \<Longrightarrow> table_ok w' = table_ok w"
  by (simp add: table_ok_def LoadProcesses_def)

lemma table_ok_loaded:
  "table_ok w \<Longrightarrow> \<exists>ps. LoadProcesses w = Inr ps \<and> distinct (map Name ps) \<and> list_all stored ps"
  by (auto simp: table_ok_def LoadProcesses_stored split: sum.splits)

lemma table_ok_save:
  assumes "table_ok w" and "distinct (map Name qs)" and "\<forall>q\<in>set qs. valid_utf8 (Name q)"
  shows "table_ok (snd (SaveProcesses pm qs w))"
proof (cases "list_all marshal_ok qs \<and> table_writable w")
  case True
  have eq: "map (Name \<circ> json_roundtrip) qs = map Name qs"
    using assms(3) by (induction qs) (simp_all add: valid_utf8_def)
  have "distinct (map (Name \<circ> json_roundtrip) qs)" unfolding eq by (rule assms(2))
  with True show ?thesis
    by (simp add: table_ok_def LoadProcesses_saved)
next
  case False
  then have "snd (SaveProcesses pm qs w) = w" by (auto simp: SaveProcesses_eq)
  with assms(1) show ?thesis by simp
qed

lemma table_ok_save_stored:
  "table_ok w \<Longrightarrow> distinct (map Name qs) \<Longrightarrow> list_all stored qs \<Longrightarrow>
   table_ok (snd (SaveProcesses pm qs w))"
  by (rule table_ok_save) (auto simp: list_all_iff stored_valid)

lemma table_ok_AddProcess:
  assumes "table_ok w" and "valid_utf8 (Name info)"
  shows "table_ok (snd (AddProcess pm info w))"
proof -
  from assms(1) obtain ps where ps: "LoadProcesses w = Inr ps" "distinct (map Name ps)"
    "list_all stored ps" using table_ok_loaded by blast
  have v: "\<forall>q\<in>set (filter (\<lambda>p. Name p \<noteq> Name info) ps @ [info]). valid_utf8 (Name q)"
    using ps(3) assms(2) by (auto simp: list_all_iff stored_valid)
  have "table_ok (snd (SaveProcesses pm (filter (\<lambda>p. Name p \<noteq> Name info) ps @ [info]) w))"
    by (rule table_ok_save [OF assms(1) distinct_upsert [OF ps(2)] v])
  then show ?thesis by (simp add: AddProcess_def ps(1))
qed

lemma table_ok_RemoveProcess: "table_ok w \<Longrightarrow> table_ok (snd (RemoveProcess pm name w))"
proof -
  assume ok: "table_ok w"
  then obtain ps where ps: "LoadProcesses w = Inr ps" "distinct (map Name ps)"
    "list_all stored ps" using table_ok_loaded by blast
  have "list_all stored (filter (\<lambda>p. Name p \<noteq> name) ps)"
    using ps(3) by (simp add: list_all_iff)
  then show ?thesis
    unfolding RemoveProcess_def ps(1)
    using ok ps(2) by (simp add: table_ok_save_stored distinct_map_filter)
qed

lemma table_ok_UpdateProcessStatus: "table_ok w \<Longrightarrow> table_ok (snd (UpdateProcessStatus pm w))"
proof -
  assume ok: "table_ok w"
  then obtain ps where ps: "LoadProcesses w = Inr ps" "distinct (map Name ps)"
    "list_all stored ps" using table_ok_loaded by blast
  have "map Name (map (reconciled w) ps) = map Name ps" by simp
  with ps(2) have "distinct (map Name (map (reconciled w) ps))" by metis
  then show ?thesis
    unfolding UpdateProcessStatus_def ps(1)
    using ok ps(3) by (simp add: mark_dead_map table_ok_save_stored stored_reconciled)
qed

lemma fst_Signal [simp]: "fst (Signal pid sig w) = IsProcessRunning w pid"
  by (simp add: Signal_def IsProcessRunning_def Let_def split: option.splits)

lemma table_Signal [simp]: "table (snd (Signal pid sig w)) = table w"
  by (simp add: Signal_def Let_def split: option.splits)

lemma writable_Signal [simp]: "table_writable (snd (Signal pid sig w)) = table_writable w"
  by (simp add: Signal_def Let_def split: option.splits)

lemma trace_Signal [simp]: "trace (snd (Signal pid sig w)) = trace w @ [Kill pid sig]"
  by (simp add: Signal_def Let_def split: option.splits)

lemma IsProcessRunning_trace [simp]: "IsProcessRunning (w\<lparr>trace := t\<rparr>) = IsProcessRunning w"
  by (simp add: IsProcessRunning_def fun_eq_iff)

lemma StopProcess_running:
  assumes "LoadProcesses w = Inr ps" and "find (\<lambda>p. Name p = name) ps = Some info"
    and "Status info = ''running''"
  shows "StopProcess pm name w =
           (None, snd (SaveProcesses pm (stop_named name ps)
                    (Sleep 100 (if IsProcessRunning w (PID info)
                                then snd (Signal (PID info) SIGTERM w)
                                else snd (Signal (PID info) SIGKILL
                                           (snd (Signal (PID info) SIGTERM w)))))))"
proof -
  have g: "GetProcess pm name w = Inr info" by (simp add: GetProcess_def assms)
  have l: "LoadProcesses (Sleep 100 w') = LoadProcesses w" if "table w' = table w" for w'
    using that by (simp add: Sleep_def LoadProcesses_cong [of w' w])
  show ?thesis
    by (simp add: StopProcess_def g assms(3) case_prod_beta Let_def l assms(1))
qed

lemma table_ok_StopProcess: "table_ok w \<Longrightarrow> table_ok (snd (StopProcess pm name w))"
proof -
  assume ok: "table_ok w"
  then obtain ps where ps: "LoadProcesses w = Inr ps" "distinct (map Name ps)"
    "list_all stored ps" using table_ok_loaded by blast
  show ?thesis
  proof (cases "find (\<lambda>p. Name p = name) ps")
    case None
    then show ?thesis using ok by (simp add: StopProcess_def GetProcess_def ps(1))
  next
    case (Some info)
    show ?thesis
    proof (cases "Status info = ''running''")
      case False
      with Some show ?thesis using ok by (simp add: StopProcess_def GetProcess_def ps(1))
    next
      case True
      let ?w3 = "Sleep 100 (if IsProcessRunning w (PID info)
                            then snd (Signal (PID info) SIGTERM w)
                            else snd (Signal (PID info) SIGKILL
                                       (snd (Signal (PID info) SIGTERM w))))"
      have "table ?w3 = table w" by (simp add: Sleep_def)
      then have "table_ok ?w3" using ok table_ok_cong by blast
      then have "table_ok (snd (SaveProcesses pm (stop_named name ps) ?w3))"
        using ps(2,3) by (intro table_ok_save_stored) (simp_all add: stored_stop_named)
      then show ?thesis by (simp add: StopProcess_running [OF ps(1) Some True])
    qed
  qed
qed

lemma table_ok_watcher: "table_ok w \<Longrightarrow> table_ok (watcher pm info w)"
proof -
  assume ok: "table_ok w"
  then obtain ps where ps: "LoadProcesses w = Inr ps" "distinct (map Name ps)"
    "list_all stored ps" using table_ok_loaded by blast
  let ?w1 = "w\<lparr>trace := trace w @ [LogClosed (LogFile info)]\<rparr>"
  have "table_ok ?w1" using ok table_ok_cong [of ?w1 w] by simp
  then have "table_ok (snd (SaveProcesses pm (stop_pid (PID info) ps) ?w1))"
    using ps(2,3) by (intro table_ok_save_stored) (simp_all add: stored_stop_pid)
  then show ?thesis by (simp add: watcher_def Let_def ps(1))
qed

lemma table_open_and_write: "open_and_write f t w = Some w1 \<Longrightarrow> table w1 = table w"
  by (auto simp: open_and_write_def split: log_file.splits)

lemma StartDaemon_world:
  "snd (StartDaemon pm name command env workdir w) = w
   \<or> table (snd (StartDaemon pm name command env workdir w)) = table w
   \<or> (\<exists>w2 info. table w2 = table w \<and> Name info = name
         \<and> snd (StartDaemon pm name command env workdir w) = snd (AddProcess pm info w2))"
proof (cases "logdir_ok w")
  case False
  then show ?thesis by (simp add: StartDaemon_def)
next
  case True
  show ?thesis
  proof (cases "open_and_write (GetLogFile pm name) (banner (now w) command workdir) w")
    case None
    with True show ?thesis by (simp add: StartDaemon_def)
  next
    case (Some w1)
    then have t1: "table w1 = table w" by (rule table_open_and_write)
    show ?thesis
    proof (cases "spawns w1")
      case Nil
      with True Some t1 show ?thesis by (simp add: StartDaemon_def)
    next
      case (Cons pr rest)
      obtain pid r where pr: "pr = (pid, r)" by (cases pr)
      define w2 where "w2 = w1\<lparr>procs := (procs w1)(pid \<mapsto> r), spawns := rest,
                                  trace := trace w1 @ [Started command workdir env pid]\<rparr>"
      define info where "info = \<lparr>PID = pid, Name = name, Command = command,
                                  StartTime = now w1, Status = ''running'',
                                  LogFile = GetLogFile pm name, Project = ProjectName pm\<rparr>"
      have t2: "table w2 = table w" by (simp add: w2_def t1)
      have n: "Name info = name" by (simp add: info_def)
      have "snd (StartDaemon pm name command env workdir w) = snd (AddProcess pm info w2)"
        using True Some Cons pr
        by (auto simp add: StartDaemon_def Let_def w2_def [symmetric] info_def [symmetric]
            split: prod.splits option.splits)
      with t2 n show ?thesis by blast
    qed
  qed
qed

lemma table_ok_StartDaemon:
  assumes "table_ok w" and "valid_utf8 name"
  shows "table_ok (snd (StartDaemon pm name command env workdir w))"
proof -
  let ?w' = "snd (StartDaemon pm name command env workdir w)"
  consider "?w' = w" | "table ?w' = table w"
    | w2 info where "table w2 = table w" "Name info = name" "?w' = snd (AddProcess pm info w2)"
    using StartDaemon_world [of pm name command env workdir w] by blast
  then show "table_ok ?w'"
  proof cases
    case 1
    with assms(1) show ?thesis by simp
  next
    case 2
    with assms(1) show ?thesis using table_ok_cong [of ?w' w] by simp
  next
    case 3
    from 3(1) assms(1) have "table_ok w2" using table_ok_cong [of w2 w] by simp
    then show ?thesis unfolding 3(3) using assms(2) 3(2) by (intro table_ok_AddProcess) simp_all
  qed
qed

lemma reachable_table_ok: "reachable pm w \<Longrightarrow> table_ok w"
proof (induction rule: reachable.induct)
  case (empty w)
  then show ?case by (simp add: table_ok_def)
next
  case (other w w')
  then show ?case using table_ok_cong [of w' w] by simp
qed (simp_all add: table_ok_AddProcess table_ok_RemoveProcess table_ok_UpdateProcessStatus
       table_ok_StopProcess table_ok_StartDaemon table_ok_watcher)

text \<open>
  In every world that the operations of the store reach from the empty table with names
  that are valid UTF-8, the table loads and holds at most one record for every name.
\<close>

lemma store_names_unique_valid_utf8:
  assumes "reachable pm w"
  shows "\<exists>ps. LoadProcesses w = Inr ps \<and> (\<forall>name. count_name name ps \<le> 1)"
proof -
  from assms have "table_ok w" by (rule reachable_table_ok)
  then obtain ps where "LoadProcesses w = Inr ps" "distinct (map Name ps)"
    using table_ok_loaded by blast
  moreover from this have "\<forall>name. count_name name ps \<le> 1" using count_name_le_1 by blast
  ultimately show ?thesis by blast
qed

subsection \<open>Lists of records, reconciliation, the watcher loop, the scanner\<close>

lemma find_distinct_name:
  "distinct (map Name ps) \<Longrightarrow> p \<in> set ps \<Longrightarrow> find (\<lambda>q. Name q = Name p) ps = Some p"
proof (induction ps)
  case Nil
  then show ?case by simp
next
  case (Cons a ps)
  show ?case
  proof (cases "a = p")
    case True
    then show ?thesis by simp
  next
    case False
    with Cons.prems have p: "p \<in> set ps" by simp
    from Cons.prems have "Name a \<notin> Name ` set ps" by simp
    with p have "Name a \<noteq> Name p" by (metis imageI)
    with Cons p show ?thesis by simp
  qed
qed

lemma count_name_distinct_mem:
  "distinct (map Name ps) \<Longrightarrow> p \<in> set ps \<Longrightarrow> count_name (Name p) ps = 1"
proof -
  assume d: "distinct (map Name ps)" and p: "p \<in> set ps"
  have "filter (\<lambda>q. Name q = Name p) ps \<noteq> []" using p by (auto simp: filter_empty_conv)
  then have "0 < count_name (Name p) ps" by (simp add: count_name_def)
  with count_name_le_1 [OF d, of "Name p"] show ?thesis by simp
qed

lemma find_stop_named:
  "find (\<lambda>p. Name p = name) ps = Some info \<Longrightarrow>
   find (\<lambda>p. Name p = name) (stop_named name ps) = Some (info\<lparr>Status := ''stopped''\<rparr>)"
  by (induction ps) (auto split: if_splits)

lemma reconciled_not_stale: "\<not> stale w (reconciled w p)"
  by (simp add: reconciled_def stale_def)

lemma map_reconciled_id: "\<forall>p\<in>set ps. \<not> stale w p \<Longrightarrow> map (reconciled w) ps = ps"
  by (induction ps) (auto simp: reconciled_def)

lemma filter_running_reconciled:
  "filter (\<lambda>p. Status p = ''running'' \<and> IsProcessRunning w (PID p)) (map (reconciled w) ps)
   = filter (\<lambda>p. Status p = ''running'' \<and> IsProcessRunning w (PID p)) ps"
  by (induction ps) (auto simp: reconciled_def stale_def)

lemma UpdateProcessStatus_eq:
  "LoadProcesses w = Inr ps \<Longrightarrow>
   UpdateProcessStatus pm w =
     (Inr (map (reconciled w) ps),
      if \<exists>p\<in>set ps. stale w p then snd (SaveProcesses pm (map (reconciled w) ps) w) else w)"
  by (simp add: UpdateProcessStatus_def mark_dead_map)

lemma IsProcessRunning_procs: "procs w' = procs w \<Longrightarrow> IsProcessRunning w' = IsProcessRunning w"
  by (simp add: IsProcessRunning_def fun_eq_iff)

lemma stop_pid_length [simp]: "length (stop_pid pid ps) = length ps"
  by (induction ps) auto

lemma stop_pid_nth:
  "i < length ps \<Longrightarrow>
   stop_pid pid ps ! i =
     (if PID (ps ! i) = pid \<and> (\<forall>j<i. PID (ps ! j) \<noteq> pid) then (ps ! i)\<lparr>Status := ''stopped''\<rparr>
      else ps ! i)"
proof (induction ps arbitrary: i)
  case Nil
  then show ?case by simp
next
  case (Cons p ps)
  show ?case
  proof (cases i)
    case 0
    then show ?thesis by simp
  next
    case (Suc k)
    show ?thesis
    proof (cases "PID p = pid")
      case True
      then have "\<not> (\<forall>j<i. PID ((p # ps) ! j) \<noteq> pid)" using Suc by auto
      with True Suc show ?thesis by auto
    next
      case False
      have "(\<forall>j<Suc k. PID ((p # ps) ! j) \<noteq> pid) = (\<forall>j<k. PID (ps ! j) \<noteq> pid)"
        using False by (auto simp: less_Suc_eq_0_disj)
      with False Suc Cons show ?thesis by auto
    qed
  qed
qed

lemma not_nl_newline [simp]: "\<not> not_nl (CHR 0x0A)"
  by (simp add: not_nl_def)

lemma takeWhile_line: "\<forall>c\<in>set s. not_nl c \<Longrightarrow> takeWhile not_nl (s @ CHR 0x0A # rest) = s"
  by simp

lemma dropWhile_line: "\<forall>c\<in>set s. not_nl c \<Longrightarrow> dropWhile not_nl (s @ CHR 0x0A # rest) = CHR 0x0A # rest"
  by simp

lemma scan_all_Nil: "scan_all [] = ([], None)"
  by (simp add: scan_all.simps)

lemma scan_all_too_long:
  assumes "\<forall>c\<in>set s. not_nl c" and "MaxScanTokenSize \<le> length s"
  shows "scan_all (s @ CHR 0x0A # rest) = ([], Some TokenTooLong)"
  by (subst scan_all.simps) (simp only: takeWhile_line [OF assms(1)] assms(2) if_True, simp)

lemma scan_all_line:
  assumes "\<forall>c\<in>set s. not_nl c" and "length s < MaxScanTokenSize"
  shows "scan_all (s @ CHR 0x0A # rest) = (dropCR s # fst (scan_all rest), snd (scan_all rest))"
proof -
  have "\<not> MaxScanTokenSize \<le> length s" using assms(2) by simp
  then show ?thesis
    by (subst scan_all.simps)
       (simp only: takeWhile_line [OF assms(1)] dropWhile_line [OF assms(1)] if_False list.case, simp)
qed

lemma scan_abc: "scan_all log_abc = ([''a'', ''b'', ''c''], None)"
proof -
  have c: "scan_all (''c'' @ CHR 0x0A # []) = ([''c''], None)"
    by (subst scan_all_line) (simp_all add: not_nl_def MaxScanTokenSize_def dropCR_def scan_all_Nil)
  have b: "scan_all (''b'' @ CHR 0x0A # ''c'' @ CHR 0x0A # []) = ([''b'', ''c''], None)"
    by (subst scan_all_line) (simp_all add: not_nl_def MaxScanTokenSize_def dropCR_def c [simplified])
  show ?thesis
    unfolding log_abc_def
    by (subst scan_all_line) (simp_all add: not_nl_def MaxScanTokenSize_def dropCR_def b [simplified])
qed

lemma scan_long: "scan_all log_long = ([''a''], Some TokenTooLong)"
proof -
  have x: "scan_all (replicate 65536 (CHR ''x'') @ CHR 0x0A # []) = ([], Some TokenTooLong)"
    by (rule scan_all_too_long) (simp_all add: not_nl_def MaxScanTokenSize_def)
  show ?thesis
    unfolding log_long_def
    by (subst scan_all_line) (simp_all add: not_nl_def MaxScanTokenSize_def dropCR_def x)
qed

lemma wrap64_id: "- (2 ^ 63) \<le> x \<Longrightarrow> x < 2 ^ 63 \<Longrightarrow> wrap64 x = x"
  by (simp add: wrap64_def)

lemma tailLines_in_range:
  assumes "logs w f = Log data" and "0 \<le> n" and "n < 2 ^ 63" and "length (fst (scan_all data)) < 2 ^ 63"
  shows "tailLines f n w = (snd (scan_all data),
           w\<lparr>trace := trace w @ map Stdout (drop (length (fst (scan_all data)) - nat n) (fst (scan_all data)))\<rparr>)"
proof -
  let ?len = "int (length (fst (scan_all data)))"
  have w: "wrap64 (?len - n) = ?len - n"
    using assms by (intro wrap64_id) auto
  show ?thesis
  proof (cases "?len < n")
    case True
    then have "length (fst (scan_all data)) - nat n = 0" by auto
    with True w show ?thesis
      by (simp add: tailLines_def assms(1) case_prod_beta Let_def)
  next
    case False
    then have "nat (?len - n) = length (fst (scan_all data)) - nat n" using assms(2) by auto
    with False w show ?thesis
      by (simp add: tailLines_def assms(1) case_prod_beta Let_def)
  qed
qed

lemma tailLines_nonpositive:
  assumes "logs w f = Log data" and "n \<le> 0" and "int (length (fst (scan_all data))) - n < 2 ^ 63"
  shows "tailLines f n w = (snd (scan_all data), w\<lparr>trace := trace w\<rparr>)"
proof -
  let ?len = "int (length (fst (scan_all data)))"
  have w: "wrap64 (?len - n) = ?len - n"
    using assms by (intro wrap64_id) auto
  have "\<not> ?len < n" using assms(2) by auto
  moreover have "length (fst (scan_all data)) \<le> nat (?len - n)"
    using assms(2) by auto
  ultimately show ?thesis using w
    by (simp add: tailLines_def assms(1) case_prod_beta Let_def)
qed

lemma file_lines_no_nl:
  "\<forall>c\<in>set s. not_nl c \<Longrightarrow> file_lines cur s = (if cur @ s = [] then [] else [cur @ s])"
  by (induction s arbitrary: cur) (auto simp: not_nl_def)

lemma file_lines_line:
  "\<forall>c\<in>set s. not_nl c \<Longrightarrow> file_lines cur (s @ CHR 0x0A # rest) = (cur @ s) # file_lines [] rest"
  by (induction s arbitrary: cur) (auto simp: not_nl_def)

lemma split_at_nl:
  "dropWhile not_nl data = nl # rest \<Longrightarrow> data = takeWhile not_nl data @ CHR 0x0A # rest"
proof -
  assume a: "dropWhile not_nl data = nl # rest"
  then have "\<not> not_nl nl" using hd_dropWhile [of not_nl data] by auto
  then have "nl = CHR 0x0A" by (simp add: not_nl_def)
  with a takeWhile_dropWhile_id [of not_nl data] show ?thesis by metis
qed

lemma scan_all_file_lines:
  "\<forall>l\<in>set (file_lines [] data). length l < MaxScanTokenSize \<Longrightarrow>
   scan_all data = (map dropCR (file_lines [] data), None)"
proof (induction data rule: scan_all.induct)
  case (1 data)
  let ?s = "takeWhile not_nl data"
  have s: "\<forall>c\<in>set ?s. not_nl c" by (auto dest: set_takeWhileD)
  show ?case
  proof (cases "data = []")
    case True
    then show ?thesis by (simp add: scan_all.simps)
  next
    case ne: False
    show ?thesis
    proof (cases "dropWhile not_nl data")
      case Nil
      then have all: "\<forall>c\<in>set data. not_nl c" by simp
      then have fl: "file_lines [] data = [data]" using ne by (simp add: file_lines_no_nl)
      have tw: "?s = data" using all by simp
      from "1.prems" fl have "\<not> MaxScanTokenSize \<le> length data" by simp
      then show ?thesis by (subst scan_all.simps) (simp add: ne Nil tw fl)
    next
      case (Cons nl rest)
      then have d: "data = ?s @ CHR 0x0A # rest" by (rule split_at_nl)
      have fl: "file_lines [] data = ?s # file_lines [] rest"
        using file_lines_line [OF s, of "[]" rest] d by simp
      from "1.prems" fl have len: "length ?s < MaxScanTokenSize"
        and rest: "\<forall>l\<in>set (file_lines [] rest). length l < MaxScanTokenSize" by simp_all
      have nlen: "\<not> MaxScanTokenSize \<le> length ?s" using len by simp
      have ih: "scan_all rest = (map dropCR (file_lines [] rest), None)"
        using "1.IH" [OF ne nlen Cons] rest by simp
      show ?thesis
        by (subst scan_all.simps) (simp add: ne nlen Cons ih fl)
    qed
  qed
qed

subsection \<open>The example inputs\<close>

lemma load_examples:
  "LoadProcesses world0 = Inr []"
  "LoadProcesses world_stale = Inr [daemon ''web'' 100 ''running'']"
  "LoadProcesses world_stopped = Inr [daemon ''web'' 100 ''stopped'']"
  "LoadProcesses world_live = Inr [daemon ''web'' 100 ''running'']"
  "LoadProcesses world_stubborn = Inr [daemon ''web'' 100 ''running'']"
  "LoadProcesses world_reused = Inr [daemon ''old'' 100 ''stopped'', daemon ''web'' 100 ''running'']"
  "LoadProcesses world_corrupt = Inl DecodeFailed"
  by (simp_all add: LoadProcesses_def world0_def world_stale_def world_stopped_def world_live_def
      world_stubborn_def world_reused_def world_corrupt_def json_roundtrip_daemon)

lemma stored_daemon: "ascii name \<Longrightarrow> ascii status \<Longrightarrow> stored (daemon name pid status)"
  by (simp add: stored_def json_roundtrip_daemon)

subsection \<open>Starting\<close>

lemma writable_SaveProcesses [simp]:
  "table_writable (snd (SaveProcesses pm ps w)) = table_writable w"
  by (simp add: SaveProcesses_eq)

lemma fields_SaveProcesses [simp]:
  "logs (snd (SaveProcesses pm ps w)) = logs w"
  "logdir_ok (snd (SaveProcesses pm ps w)) = logdir_ok w"
  "spawns (snd (SaveProcesses pm ps w)) = spawns w"
  "now (snd (SaveProcesses pm ps w)) = now w"
  by (simp_all add: SaveProcesses_eq)

lemma StartDaemon_ok:
  assumes "logdir_ok w" and "logs w (GetLogFile pm name) \<noteq> LogDenied"
    and "spawns w = (pid, r) # rest" and "table_writable w"
    and "0 \<le> year (now w) \<and> year (now w) \<le> 9999" and "LoadProcesses w = Inr ps"
    and "info = \<lparr>PID = pid, Name = name, Command = command, StartTime = now w,
                  Status = ''running'', LogFile = GetLogFile pm name, Project = ProjectName pm\<rparr>"
  shows "fst (StartDaemon pm name command env workdir w) = Inr info"
    and "LoadProcesses (snd (StartDaemon pm name command env workdir w)) =
           Inr (map json_roundtrip (filter (\<lambda>p. Name p \<noteq> name) ps @ [info]))"
    and "trace (snd (StartDaemon pm name command env workdir w)) =
           trace w @ [Started command workdir env pid]"
    and "procs (snd (StartDaemon pm name command env workdir w)) = (procs w)(pid \<mapsto> r)"
    and "spawns (snd (StartDaemon pm name command env workdir w)) = rest"
    and "logdir_ok (snd (StartDaemon pm name command env workdir w))"
    and "table_writable (snd (StartDaemon pm name command env workdir w))"
    and "now (snd (StartDaemon pm name command env workdir w)) = now w"
    and "logs (snd (StartDaemon pm name command env workdir w)) (GetLogFile pm name) \<noteq> LogDenied"
    and "\<forall>f. f \<noteq> GetLogFile pm name \<longrightarrow>
           logs (snd (StartDaemon pm name command env workdir w)) f = logs w f"
proof -
  let ?f = "GetLogFile pm name"
  let ?b = "banner (now w) command workdir"
  define w1 where "w1 = w\<lparr>logs := (logs w)(?f := Log (case logs w ?f of Log old \<Rightarrow> old @ ?b | _ \<Rightarrow> ?b))\<rparr>"
  have o: "open_and_write ?f ?b w = Some w1"
    using assms(2) by (simp add: open_and_write_def w1_def split: log_file.splits)
  define w2 where "w2 = w1\<lparr>procs := (procs w1)(pid \<mapsto> r), spawns := rest,
                              trace := trace w1 @ [Started command workdir env pid]\<rparr>"
  let ?qs = "filter (\<lambda>p. Name p \<noteq> name) ps @ [info]"
  have l2: "LoadProcesses w2 = Inr ps"
    using assms(6) LoadProcesses_cong [of w2 w] by (simp add: w2_def w1_def)
  have a: "AddProcess pm info w2 = SaveProcesses pm ?qs w2"
    by (simp add: AddProcess_def l2 assms(7))
  have "list_all marshal_ok ps"
    using assms(6) LoadProcesses_stored list_all_stored_marshal by blast
  then have mk: "list_all marshal_ok ?qs"
    using assms(5) by (simp add: list_all_iff marshal_ok_def assms(7))
  have wr: "table_writable w2" using assms(4) by (simp add: w2_def w1_def)
  have f: "fst (SaveProcesses pm ?qs w2) = None" using mk wr by (simp add: SaveProcesses_eq)
  have sp: "spawns w1 = (pid, r) # rest" using assms(3) by (simp add: w1_def)
  have nw1: "now w1 = now w" by (simp add: w1_def)
  have sd: "StartDaemon pm name command env workdir w = (Inr info, snd (SaveProcesses pm ?qs w2))"
    unfolding w2_def
    using f [unfolded w2_def] a [unfolded w2_def]
    by (simp add: StartDaemon_def assms(1) o sp Let_def nw1 assms(7) [symmetric] case_prod_beta)
  show "fst (StartDaemon pm name command env workdir w) = Inr info" by (simp add: sd)
  show "LoadProcesses (snd (StartDaemon pm name command env workdir w)) =
           Inr (map json_roundtrip ?qs)"
    using LoadProcesses_saved [OF mk wr, of pm] by (simp add: sd)
  show "trace (snd (StartDaemon pm name command env workdir w)) =
           trace w @ [Started command workdir env pid]"
    by (simp add: sd w2_def w1_def)
  show "procs (snd (StartDaemon pm name command env workdir w)) = (procs w)(pid \<mapsto> r)"
    by (simp add: sd w2_def w1_def)
  show "spawns (snd (StartDaemon pm name command env workdir w)) = rest"
    using mk by (simp add: sd SaveProcesses_eq w2_def w1_def)
  show "logdir_ok (snd (StartDaemon pm name command env workdir w))"
    using mk assms(1) by (simp add: sd SaveProcesses_eq w2_def w1_def)
  show "table_writable (snd (StartDaemon pm name command env workdir w))"
    using wr by (simp add: sd)
  show "now (snd (StartDaemon pm name command env workdir w)) = now w"
    using mk by (simp add: sd SaveProcesses_eq w2_def w1_def)
  show "logs (snd (StartDaemon pm name command env workdir w)) ?f \<noteq> LogDenied"
    using mk by (simp add: sd SaveProcesses_eq w2_def w1_def)
  show "\<forall>f. f \<noteq> ?f \<longrightarrow> logs (snd (StartDaemon pm name command env workdir w)) f = logs w f"
    by (simp add: sd w2_def w1_def)
qed

lemma runRun_detach_starts:
  assumes "LoadProcesses w = Inr ps"
    and "\<forall>p. find (\<lambda>p. Name p = name) ps = Some p \<longrightarrow>
           \<not> (Status p = ''running'' \<and> IsProcessRunning w (PID p))"
    and "name \<noteq> []" and "command \<noteq> []"
    and "fst (StartDaemon pm name command env workdir w) = Inr info"
  shows "runRun_detach pm name command cfg_cmd env workdir w =
           (Inr info, snd (StartDaemon pm name command env workdir w))"
proof (cases "find (\<lambda>p. Name p = name) ps")
  case None
  then show ?thesis
    by (simp add: runRun_detach_def GetProcess_def Let_def case_prod_beta assms(1,3,4,5))
next
  case (Some p)
  with assms(2) have "\<not> (Status p = ''running'' \<and> IsProcessRunning w (PID p))" by simp
  with Some show ?thesis
    by (simp add: runRun_detach_def GetProcess_def Let_def case_prod_beta assms(1,3,4,5))
qed

text \<open>When the table holds one record per name and the record of the name says
  \<open>running\<close> and its PID is alive, \<^verbatim>\<open>sbox run -d\<close> fails with the already-running error and
  changes nothing.\<close>

lemma runRun_refuses_unique_name:
  assumes "LoadProcesses w = Inr ps" and "distinct (map Name ps)" and "p \<in> set ps"
    and "Name p = (if name = [] then ProjectName pm else name)"
    and "Status p = ''running''" and "IsProcessRunning w (PID p)"
  shows "runRun_detach pm name command cfg_cmd env workdir w = (Inl (AlreadyRunning (Name p) (PID p)), w)
         \<and> count_name (Name p) ps = 1"
proof -
  have "find (\<lambda>q. Name q = Name p) ps = Some p" using assms(2,3) by (rule find_distinct_name)
  then have "GetProcess pm (Name p) w = Inr p" by (simp add: GetProcess_def assms(1))
  then have "runRun_detach pm name command cfg_cmd env workdir w = (Inl (AlreadyRunning (Name p) (PID p)), w)"
    using assms(4,5,6) by (simp add: runRun_detach_def Let_def)
  with count_name_distinct_mem [OF assms(2,3)] show ?thesis by simp
qed

section \<open>The claims\<close>

subsection \<open>C1: how the table is saved\<close>

text \<open>
  C1, as the code has it. \<^verbatim>\<open>SaveProcesses\<close> returns the error of the marshalling, or that
  of the write when the table file cannot be opened for writing, and then changes
  nothing. Otherwise it returns no error and has made exactly three calls, all on the
  path of the table file itself: it has opened the file with truncation, written the JSON
  and closed. No call is a rename, and no other path is written. The table file has had
  two new contents: first the empty file, on which a reader's \<^verbatim>\<open>LoadProcesses\<close> fails to
  decode, and then the JSON of the table, from which a reader loads the records as the
  JSON encoding gives them back.
\<close>

theorem SaveProcesses_writes_in_place:
  "SaveProcesses pm ps w =
     (if \<not> list_all marshal_ok ps then (Some MarshalFailed, w)
      else if \<not> table_writable w then (Some WriteFailed, w)
      else (None, w\<lparr>table := Table ps,
                    table_seen := table_seen w @ [Malformed [], Table ps],
                    syscalls := syscalls w @ [OpenTrunc (GetProcessFile pm),
                      WriteAll (GetProcessFile pm) ps, Close (GetProcessFile pm)]\<rparr>))
   \<and> (\<forall>src dst. Rename src dst \<notin>
         set (drop (length (syscalls w)) (syscalls (snd (SaveProcesses pm ps w)))))
   \<and> (list_all marshal_ok ps \<and> table_writable w \<longrightarrow>
         LoadProcesses
           (w\<lparr>table := table_seen (snd (SaveProcesses pm ps w)) ! length (table_seen w)\<rparr>)
           = Inl DecodeFailed
         \<and> LoadProcesses (snd (SaveProcesses pm ps w)) = Inr (map json_roundtrip ps))"
  by (simp add: SaveProcesses_eq LoadProcesses_def nth_append)

text \<open>The theorem of C1 at a table that can be marshalled and a file that can be written.\<close>

theorem SaveProcesses_writes_in_place_witness:
  "list_all marshal_ok [daemon ''web'' 100 ''stopped''] \<and> table_writable world_stale
   \<and> syscalls (snd (SaveProcesses pm0 [daemon ''web'' 100 ''stopped''] world_stale))
       = [OpenTrunc (GetProcessFile pm0),
          WriteAll (GetProcessFile pm0) [daemon ''web'' 100 ''stopped''],
          Close (GetProcessFile pm0)]
   \<and> LoadProcesses (snd (SaveProcesses pm0 [daemon ''web'' 100 ''stopped''] world_stale))
       = Inr [daemon ''web'' 100 ''stopped'']"
proof -
  have m: "list_all marshal_ok [daemon ''web'' 100 ''stopped'']" by simp
  have h: "table_writable world_stale" "syscalls world_stale = []"
    by (simp_all add: world_stale_def world0_def)
  note t = SaveProcesses_writes_in_place [of pm0 "[daemon ''web'' 100 ''stopped'']" world_stale]
  from t m h(1)
  have l: "LoadProcesses (snd (SaveProcesses pm0 [daemon ''web'' 100 ''stopped''] world_stale))
           = Inr (map json_roundtrip [daemon ''web'' 100 ''stopped''])"
    by blast
  from conjunct1 [OF t] m h
  have c: "syscalls (snd (SaveProcesses pm0 [daemon ''web'' 100 ''stopped''] world_stale))
           = [OpenTrunc (GetProcessFile pm0),
              WriteAll (GetProcessFile pm0) [daemon ''web'' 100 ''stopped''],
              Close (GetProcessFile pm0)]"
    by simp
  from l have "LoadProcesses (snd (SaveProcesses pm0 [daemon ''web'' 100 ''stopped''] world_stale))
           = Inr [daemon ''web'' 100 ''stopped'']"
    by (simp add: json_roundtrip_daemon)
  with m h(1) c show ?thesis by blast
qed

text \<open>
  C1 as stated fails: the table file holds the record of \<open>web\<close>. A save of the table
  succeeds; it has opened the table file itself with truncation and written to it, and
  the first new content of the file, which a reader can find, is the empty file, which
  does not decode.
\<close>

theorem SaveProcesses_torn_counterexample:
  "LoadProcesses world_stale = Inr [daemon ''web'' 100 ''running'']
   \<and> fst (SaveProcesses pm0 [daemon ''web'' 100 ''stopped''] world_stale) = None
   \<and> syscalls (snd (SaveProcesses pm0 [daemon ''web'' 100 ''stopped''] world_stale))
       = [OpenTrunc (GetProcessFile pm0),
          WriteAll (GetProcessFile pm0) [daemon ''web'' 100 ''stopped''],
          Close (GetProcessFile pm0)]
   \<and> table_seen (snd (SaveProcesses pm0 [daemon ''web'' 100 ''stopped''] world_stale))
       = [Malformed [], Table [daemon ''web'' 100 ''stopped'']]
   \<and> LoadProcesses
       (world_stale\<lparr>table :=
          hd (table_seen (snd (SaveProcesses pm0 [daemon ''web'' 100 ''stopped''] world_stale)))\<rparr>)
       = Inl DecodeFailed"
proof -
  have h: "table_writable world_stale" "syscalls world_stale = []" "table_seen world_stale = []"
    by (simp_all add: world_stale_def world0_def)
  show ?thesis
    by (simp add: load_examples SaveProcesses_eq h) (simp add: LoadProcesses_def)
qed

subsection \<open>C2: one record per name\<close>

text \<open>
  C2 fails on the code. \<^verbatim>\<open>AddProcess\<close> is called twice from the empty table with the name
  \<^verbatim>\<open>web\xff\<close>, for the PIDs 100 and 200. The first record is stored under the name that
  the JSON encoding makes of it, in which U+FFFD stands for the last byte. The second
  call compares the stored name with \<^verbatim>\<open>web\xff\<close>, keeps the first record and appends the
  second: the table that is loaded afterwards holds two records of one name.
\<close>

theorem AddProcess_invalid_utf8_two_records:
  "LoadProcesses world_added_twice =
     Inr [json_roundtrip (daemon name_ff 100 ''running''),
          json_roundtrip (daemon name_ff 200 ''running'')]
   \<and> Name (json_roundtrip (daemon name_ff 100 ''running'')) = name_fffd
   \<and> Name (json_roundtrip (daemon name_ff 200 ''running'')) = name_fffd
   \<and> PID (json_roundtrip (daemon name_ff 100 ''running'')) = 100
   \<and> PID (json_roundtrip (daemon name_ff 200 ''running'')) = 200
   \<and> count_name name_fffd
         [json_roundtrip (daemon name_ff 100 ''running''),
          json_roundtrip (daemon name_ff 200 ''running'')] = 2"
proof -
  let ?d1 = "daemon name_ff 100 ''running''"
  let ?d2 = "daemon name_ff 200 ''running''"
  define w1 where "w1 = snd (AddProcess pm0 ?d1 world0)"
  have n: "Name (json_roundtrip ?d1) = name_fffd" "Name (json_roundtrip ?d2) = name_fffd"
    by (simp_all add: daemon_def coerce_name_ff)
  have p: "PID (json_roundtrip ?d1) = 100" "PID (json_roundtrip ?d2) = 200"
    by (simp_all add: daemon_def)
  have wr: "table_writable world0" by (simp add: world0_def)
  have a1: "w1 = snd (SaveProcesses pm0 [?d1] world0)"
    by (simp add: w1_def AddProcess_def load_examples)
  have l1: "LoadProcesses w1 = Inr [json_roundtrip ?d1]"
    unfolding a1 using LoadProcesses_saved [of "[?d1]" world0 pm0] wr by simp
  have w1: "table_writable w1" unfolding a1 using wr by simp
  have "Name (json_roundtrip ?d1) \<noteq> Name ?d2"
    using n(1) name_ff_neq by (simp add: daemon_def)
  then have a2: "AddProcess pm0 ?d2 w1 = SaveProcesses pm0 [json_roundtrip ?d1, ?d2] w1"
    by (simp add: AddProcess_def l1)
  have "LoadProcesses (snd (AddProcess pm0 ?d2 w1))
        = Inr (map json_roundtrip [json_roundtrip ?d1, ?d2])"
    unfolding a2 using LoadProcesses_saved [of "[json_roundtrip ?d1, ?d2]" w1 pm0] w1 by simp
  then have l2: "LoadProcesses world_added_twice = Inr [json_roundtrip ?d1, json_roundtrip ?d2]"
    unfolding world_added_twice_def w1_def [symmetric] by (simp add: json_roundtrip_idem)
  have c: "count_name name_fffd [json_roundtrip ?d1, json_roundtrip ?d2] = 2"
    using n by (simp add: count_name_def)
  from l2 n p c show ?thesis by blast
qed

subsection \<open>C3: reconciliation\<close>

text \<open>
  C3, as the code has it. When the table loads, \<^verbatim>\<open>UpdateProcessStatus\<close> returns the table
  in which every record that says \<open>running\<close> and whose PID the probe reports dead says
  \<open>stopped\<close> and every other record is unchanged, and it saves that table if and only
  if some record changed. No returned record is stale; \<^verbatim>\<open>sbox ps --all\<close> shows this
  table, \<^verbatim>\<open>sbox ps\<close> and \<^verbatim>\<open>sbox status\<close> show as running exactly the records that say
  \<open>running\<close> and are alive, and when the file can be written the table that
  \<^verbatim>\<open>sbox status\<close> loads afterwards is the reconciled one.
\<close>

theorem UpdateProcessStatus_reconciles:
  assumes "LoadProcesses w = Inr ps"
  shows "UpdateProcessStatus pm w =
           (Inr (map (reconciled w) ps),
            if \<exists>p\<in>set ps. stale w p then snd (SaveProcesses pm (map (reconciled w) ps) w) else w)
         \<and> (\<forall>q\<in>set (map (reconciled w) ps). \<not> stale w q)
         \<and> fst (runPs pm True w) = Inr (map (reconciled w) ps)
         \<and> fst (runPs pm False w) =
             Inr (filter (\<lambda>p. Status p = ''running'' \<and> IsProcessRunning w (PID p)) ps)
         \<and> fst (fst (runStatus pm w)) =
             filter (\<lambda>p. Status p = ''running'' \<and> IsProcessRunning w (PID p)) ps
         \<and> (table_writable w \<longrightarrow> snd (fst (runStatus pm w)) = map (reconciled w) ps)"
proof -
  let ?rs = "map (reconciled w) ps"
  let ?w' = "if \<exists>p\<in>set ps. stale w p then snd (SaveProcesses pm ?rs w) else w"
  have u: "UpdateProcessStatus pm w = (Inr ?rs, ?w')"
    using assms by (rule UpdateProcessStatus_eq)
  have st: "list_all stored ps" using assms by (rule LoadProcesses_stored)
  have pr: "procs ?w' = procs w" by simp
  have g: "GetRunningProcesses pm w =
      (Inr (filter (\<lambda>p. Status p = ''running'' \<and> IsProcessRunning w (PID p)) ps), ?w')"
    unfolding GetRunningProcesses_def u
    by (simp add: IsProcessRunning_procs [OF pr] filter_running_reconciled)
  have l: "LoadProcesses ?w' = Inr ?rs" if "table_writable w"
  proof (cases "\<exists>p\<in>set ps. stale w p")
    case True
    with that show ?thesis by (simp add: LoadProcesses_saved_stored stored_reconciled st)
  next
    case False
    then have "?rs = ps" by (simp add: map_reconciled_id)
    with False assms show ?thesis by simp
  qed
  have s1: "fst (fst (runStatus pm w)) =
             filter (\<lambda>p. Status p = ''running'' \<and> IsProcessRunning w (PID p)) ps"
    unfolding runStatus_def g by simp
  have s2: "snd (fst (runStatus pm w)) = ?rs" if "table_writable w"
    unfolding runStatus_def g using l [OF that] by simp
  have ns: "\<forall>q\<in>set ?rs. \<not> stale w q" by (simp add: reconciled_not_stale)
  show ?thesis
    using u g s1 s2 ns by (simp add: runPs_def)
qed

text \<open>The theorem of C3 at a table whose only record is running with a dead PID.\<close>

theorem UpdateProcessStatus_reconciles_witness:
  "LoadProcesses world_stale = Inr [daemon ''web'' 100 ''running'']
   \<and> fst (UpdateProcessStatus pm0 world_stale) = Inr [daemon ''web'' 100 ''stopped'']
   \<and> LoadProcesses (snd (UpdateProcessStatus pm0 world_stale))
       = Inr [daemon ''web'' 100 ''stopped'']
   \<and> fst (runPs pm0 False world_stale) = Inr []"
proof -
  have h: "LoadProcesses world_stale = Inr [daemon ''web'' 100 ''running'']"
    by (rule load_examples)
  have s: "stale world_stale (daemon ''web'' 100 ''running'')"
    by (simp add: stale_def IsProcessRunning_def daemon_def world_stale_def world0_def)
  have r: "reconciled world_stale (daemon ''web'' 100 ''running'') = daemon ''web'' 100 ''stopped''"
    by (simp add: reconciled_def s) (simp add: daemon_def)
  have nr: "\<not> IsProcessRunning world_stale 100"
    by (simp add: IsProcessRunning_def world_stale_def world0_def)
  have wr: "table_writable world_stale" by (simp add: world_stale_def world0_def)
  have l: "LoadProcesses (snd (SaveProcesses pm0 [daemon ''web'' 100 ''stopped''] world_stale))
           = Inr [daemon ''web'' 100 ''stopped'']"
    by (rule LoadProcesses_saved_stored) (simp_all add: stored_daemon wr)
  from UpdateProcessStatus_reconciles [OF h, of pm0] h s r nr l show ?thesis
    by (simp add: daemon_def)
qed

text \<open>
  C3 as stated fails for stop: the record of \<open>web\<close> says \<open>running\<close> and process 100
  has exited. \<^verbatim>\<open>StopProcess\<close> does not reconcile; it finds the record running, signals
  PID 100 twice and reports success. After a reconciliation the same call fails because
  the record says \<open>stopped\<close>.
\<close>

theorem stop_without_reconcile_counterexample:
  "stale world_stale (daemon ''web'' 100 ''running'')
   \<and> fst (StopProcess pm0 ''web'' world_stale) = None
   \<and> trace (snd (StopProcess pm0 ''web'' world_stale))
       = [Kill 100 SIGTERM, Kill 100 SIGKILL, Slept 100]
   \<and> fst (StopProcess pm0 ''web'' (snd (UpdateProcessStatus pm0 world_stale)))
       = Some (NotRunning ''web'' ''stopped'')"
proof -
  have h: "LoadProcesses world_stale = Inr [daemon ''web'' 100 ''running'']"
    by (rule load_examples)
  have s: "stale world_stale (daemon ''web'' 100 ''running'')"
    by (simp add: stale_def IsProcessRunning_def daemon_def world_stale_def world0_def)
  have f: "find (\<lambda>p. Name p = ''web'') [daemon ''web'' 100 ''running'']
           = Some (daemon ''web'' 100 ''running'')"
    by (simp add: daemon_def)
  have nr: "\<not> IsProcessRunning world_stale (PID (daemon ''web'' 100 ''running''))"
    by (simp add: IsProcessRunning_def daemon_def world_stale_def world0_def)
  have t: "trace world_stale = []" by (simp add: world_stale_def world0_def)
  have st: "StopProcess pm0 ''web'' world_stale =
      (None, snd (SaveProcesses pm0 (stop_named ''web'' [daemon ''web'' 100 ''running''])
               (Sleep 100 (snd (Signal (PID (daemon ''web'' 100 ''running'')) SIGKILL
                   (snd (Signal (PID (daemon ''web'' 100 ''running'')) SIGTERM world_stale))))))) "
    using StopProcess_running [OF h f, of pm0] nr by (simp add: daemon_def)
  have 1: "fst (StopProcess pm0 ''web'' world_stale) = None" by (simp add: st)
  have 2: "trace (snd (StopProcess pm0 ''web'' world_stale))
           = [Kill 100 SIGTERM, Kill 100 SIGKILL, Slept 100]"
    by (simp add: st Sleep_def t) (simp add: daemon_def)
  have r: "reconciled world_stale (daemon ''web'' 100 ''running'') = daemon ''web'' 100 ''stopped''"
    by (simp add: reconciled_def s) (simp add: daemon_def)
  have wr: "table_writable world_stale" by (simp add: world_stale_def world0_def)
  have "LoadProcesses (snd (UpdateProcessStatus pm0 world_stale))
        = Inr [daemon ''web'' 100 ''stopped'']"
    using s by (simp add: UpdateProcessStatus_eq [OF h] r LoadProcesses_saved_stored
        stored_daemon wr)
  then have "GetProcess pm0 ''web'' (snd (UpdateProcessStatus pm0 world_stale))
             = Inr (daemon ''web'' 100 ''stopped'')"
    by (simp add: GetProcess_def) (simp add: daemon_def)
  then have 3: "fst (StopProcess pm0 ''web'' (snd (UpdateProcessStatus pm0 world_stale)))
                = Some (NotRunning ''web'' ''stopped'')"
    by (simp add: StopProcess_def) (simp add: daemon_def)
  from s 1 2 3 show ?thesis by blast
qed

subsection \<open>C4: no double start\<close>

text \<open>
  C4 fails on the code. \<^verbatim>\<open>sbox run -d --name\<close> is run with the name \<^verbatim>\<open>web\xff\<close>. The first
  run starts the daemon with PID 100, whose record says \<open>running\<close> and is stored under
  the name that the JSON encoding makes of \<^verbatim>\<open>web\xff\<close>. While that process is alive, the
  second run looks for a record of the name \<^verbatim>\<open>web\xff\<close>, finds none, and starts a second
  child with PID 200 instead of failing with the already-running error. The table then
  holds two records of one name, both running. Process 100 then exits and the table is
  reconciled: the stored name has a first record that says \<open>stopped\<close> and a second one
  that says \<open>running\<close> with the live PID 200. A run with the stored name, which is valid
  UTF-8, looks at the first record only and starts a third child with PID 300.
\<close>

theorem runRun_invalid_utf8_starts_twice:
  "fst started_once = Inr (daemon name_ff 100 ''running'')
   \<and> LoadProcesses (snd started_once) = Inr [json_roundtrip (daemon name_ff 100 ''running'')]
   \<and> Status (json_roundtrip (daemon name_ff 100 ''running'')) = ''running''
   \<and> IsProcessRunning (snd started_once) 100
   \<and> fst started_twice = Inr (daemon name_ff 200 ''running'')
   \<and> trace (snd started_twice)
       = [Started ''sleep 5'' ''/app'' [] 100, Started ''sleep 5'' ''/app'' [] 200]
   \<and> IsProcessRunning (snd started_twice) 100
   \<and> IsProcessRunning (snd started_twice) 200
   \<and> LoadProcesses (snd started_twice) =
       Inr [json_roundtrip (daemon name_ff 100 ''running''),
            json_roundtrip (daemon name_ff 200 ''running'')]
   \<and> count_name name_fffd
         [json_roundtrip (daemon name_ff 100 ''running''),
          json_roundtrip (daemon name_ff 200 ''running'')] = 2
   \<and> LoadProcesses after_ps =
       Inr [(json_roundtrip (daemon name_ff 100 ''running''))\<lparr>Status := ''stopped''\<rparr>,
            json_roundtrip (daemon name_ff 200 ''running'')]
   \<and> Name (json_roundtrip (daemon name_ff 200 ''running'')) = name_fffd
   \<and> Status (json_roundtrip (daemon name_ff 200 ''running'')) = ''running''
   \<and> IsProcessRunning after_ps 200
   \<and> fst started_third = Inr (daemon name_fffd 300 ''running'')
   \<and> trace (snd started_third)
       = [Started ''sleep 5'' ''/app'' [] 100, Started ''sleep 5'' ''/app'' [] 200,
          Started ''sleep 5'' ''/app'' [] 300]"
proof -
  let ?d1 = "daemon name_ff 100 ''running''"
  let ?d2 = "daemon name_ff 200 ''running''"
  let ?s1 = "StartDaemon pm0 name_ff ''sleep 5'' [] ''/app'' world_spawn"
  have ne: "name_ff \<noteq> []" by (simp add: name_ff_def)
  have n: "Name (json_roundtrip ?d1) = name_fffd" "Name (json_roundtrip ?d2) = name_fffd"
    by (simp_all add: daemon_def coerce_name_ff)
  have l0: "LoadProcesses world_spawn = Inr []"
    by (simp add: LoadProcesses_def world_spawn_def world0_def)
  have h0: "logdir_ok world_spawn" "logs world_spawn (GetLogFile pm0 name_ff) \<noteq> LogDenied"
    "spawns world_spawn = (100, Exits) # [(200, Exits)]" "table_writable world_spawn"
    "0 \<le> year (now world_spawn) \<and> year (now world_spawn) \<le> 9999"
    "trace world_spawn = []" "procs world_spawn = Map.empty"
    by (simp_all add: world_spawn_def world0_def now0_def)
  have i1: "?d1 = \<lparr>PID = 100, Name = name_ff, Command = ''sleep 5'', StartTime = now world_spawn,
                   Status = ''running'', LogFile = GetLogFile pm0 name_ff,
                   Project = ProjectName pm0\<rparr>"
    by (simp add: daemon_def world_spawn_def world0_def pm0_def)
  note sd1 = StartDaemon_ok [OF h0(1-5) l0 i1, of "[]" "''/app''"]
  have l1: "LoadProcesses (snd ?s1) = Inr [json_roundtrip ?d1]"
    using sd1(2) by simp
  have f1: "find (\<lambda>p. Name p = name_ff) [json_roundtrip ?d1] = None"
    using n(1) name_ff_neq by simp
  have f1': "\<forall>p. find (\<lambda>p. Name p = name_ff) [json_roundtrip ?d1] = Some p \<longrightarrow>
           \<not> (Status p = ''running'' \<and> IsProcessRunning (snd ?s1) (PID p))"
    unfolding f1 by simp
  have f0: "\<forall>p. find (\<lambda>p. Name p = name_ff) [] = Some p \<longrightarrow>
           \<not> (Status p = ''running'' \<and> IsProcessRunning world_spawn (PID p))"
    by simp
  have r1: "started_once = (Inr ?d1, snd ?s1)"
    unfolding started_once_def
    by (rule runRun_detach_starts [OF l0 f0 ne _ sd1(1)]) simp
  let ?s2 = "StartDaemon pm0 name_ff ''sleep 5'' [] ''/app'' (snd ?s1)"
  have i2: "?d2 = \<lparr>PID = 200, Name = name_ff, Command = ''sleep 5'', StartTime = now (snd ?s1),
                   Status = ''running'', LogFile = GetLogFile pm0 name_ff,
                   Project = ProjectName pm0\<rparr>"
    by (simp add: sd1(8)) (simp add: daemon_def world_spawn_def world0_def pm0_def)
  have y1: "0 \<le> year (now (snd ?s1)) \<and> year (now (snd ?s1)) \<le> 9999"
    using h0(5) by (simp add: sd1(8))
  note sd2 = StartDaemon_ok [OF sd1(6) sd1(9) sd1(5) sd1(7) y1 l1 i2, of "[]" "''/app''"]
  have r2: "started_twice = (Inr ?d2, snd ?s2)"
    unfolding started_twice_def r1 snd_conv
    by (rule runRun_detach_starts [OF l1 f1' ne _ sd2(1)]) simp
  have "Name (json_roundtrip ?d1) \<noteq> name_ff" using n(1) name_ff_neq by simp
  then have l2: "LoadProcesses (snd ?s2) = Inr [json_roundtrip ?d1, json_roundtrip ?d2]"
    using sd2(2) by (simp add: json_roundtrip_idem)
  have t2: "trace (snd ?s2) = [Started ''sleep 5'' ''/app'' [] 100, Started ''sleep 5'' ''/app'' [] 200]"
    by (simp add: sd2(3) sd1(3) h0(6))
  have a1: "IsProcessRunning (snd ?s1) 100"
    by (simp add: IsProcessRunning_def sd1(4))
  have a2: "IsProcessRunning (snd ?s2) 100" "IsProcessRunning (snd ?s2) 200"
    by (simp_all add: IsProcessRunning_def sd2(4) sd1(4))
  have st: "Status (json_roundtrip ?d1) = ''running''"
    by (simp add: daemon_def coerce_ascii)
  have c: "count_name name_fffd [json_roundtrip ?d1, json_roundtrip ?d2] = 2"
    using n by (simp add: count_name_def)
  have st2: "Status (json_roundtrip ?d2) = ''running''"
    by (simp add: daemon_def coerce_ascii)
  let ?e1 = "(json_roundtrip ?d1)\<lparr>Status := ''stopped''\<rparr>"
  have fe: "first_exited = (snd ?s2)\<lparr>procs := (procs (snd ?s2))(100 := None),
                                     spawns := [(300, Exits)]\<rparr>"
    by (simp add: first_exited_def r2)
  have lf: "LoadProcesses first_exited = Inr [json_roundtrip ?d1, json_roundtrip ?d2]"
    using l2 LoadProcesses_cong [of first_exited "snd ?s2"] by (simp add: fe)
  have pf: "procs first_exited = ((procs world_spawn)(100 \<mapsto> Exits, 200 \<mapsto> Exits))(100 := None)"
    by (simp add: fe sd2(4) sd1(4))
  have s1: "stale first_exited (json_roundtrip ?d1)"
    by (simp add: stale_def IsProcessRunning_def pf daemon_def coerce_ascii h0(7))
  have s2: "\<not> stale first_exited (json_roundtrip ?d2)"
    by (simp add: stale_def IsProcessRunning_def pf daemon_def coerce_ascii h0(7))
  have rc: "reconciled first_exited (json_roundtrip ?d1) = ?e1"
    "reconciled first_exited (json_roundtrip ?d2) = json_roundtrip ?d2"
    by (simp_all add: reconciled_def s1 s2)
  have wf: "table_writable first_exited" using sd2(7) by (simp add: fe)
  have sto: "list_all stored [?e1, json_roundtrip ?d2]"
    by (simp add: stored_stop stored_json_roundtrip)
  have ap: "after_ps = snd (SaveProcesses pm0 [?e1, json_roundtrip ?d2] first_exited)"
    using s1 by (simp add: after_ps_def runPs_def UpdateProcessStatus_eq [OF lf] rc)
  have la: "LoadProcesses after_ps = Inr [?e1, json_roundtrip ?d2]"
    unfolding ap using sto wf by (rule LoadProcesses_saved_stored)
  have a3: "IsProcessRunning after_ps 200"
    by (simp add: ap IsProcessRunning_def pf)
  have fa: "\<forall>p. find (\<lambda>p. Name p = name_fffd) [?e1, json_roundtrip ?d2] = Some p \<longrightarrow>
              \<not> (Status p = ''running'' \<and> IsProcessRunning after_ps (PID p))"
    using n by simp
  have nf: "name_fffd \<noteq> []" by (simp add: name_fffd_def)
  have pth: "GetLogFile pm0 name_fffd \<noteq> GetLogFile pm0 name_ff"
    by (simp add: GetLogFile_def filepath_Join_def name_ff_def name_fffd_def replacement_def)
  have h3: "logdir_ok after_ps" "logs after_ps (GetLogFile pm0 name_fffd) \<noteq> LogDenied"
    "spawns after_ps = (300, Exits) # []" "table_writable after_ps"
    "0 \<le> year (now after_ps) \<and> year (now after_ps) \<le> 9999"
    using sd2(6) sd2(8) y1 wf pth sd2(10) sd1(10)
    by (simp_all add: ap fe world_spawn_def world0_def)
  have i3: "daemon name_fffd 300 ''running'' =
              \<lparr>PID = 300, Name = name_fffd, Command = ''sleep 5'', StartTime = now after_ps,
                Status = ''running'', LogFile = GetLogFile pm0 name_fffd,
                Project = ProjectName pm0\<rparr>"
    using sd2(8) sd1(8)
    by (simp add: ap fe) (simp add: daemon_def world_spawn_def world0_def pm0_def)
  note sd3 = StartDaemon_ok [OF h3 la i3, of "[]" "''/app''"]
  have r3: "started_third = (Inr (daemon name_fffd 300 ''running''),
              snd (StartDaemon pm0 name_fffd ''sleep 5'' [] ''/app'' after_ps))"
    unfolding started_third_def
    by (rule runRun_detach_starts [OF la fa nf _ sd3(1)]) simp
  have t3: "trace (snd started_third)
            = [Started ''sleep 5'' ''/app'' [] 100, Started ''sleep 5'' ''/app'' [] 200,
               Started ''sleep 5'' ''/app'' [] 300]"
  proof -
    have "trace after_ps = [Started ''sleep 5'' ''/app'' [] 100, Started ''sleep 5'' ''/app'' [] 200]"
      using t2 by (simp add: ap fe)
    then show ?thesis by (simp add: r3 sd3(3))
  qed
  have f3: "fst started_third = Inr (daemon name_fffd 300 ''running'')" by (simp add: r3)
  show ?thesis
    unfolding r1 r2 fst_conv snd_conv
    using l1 st a1 t2 a2 l2 c la n(2) st2 a3 f3 t3 by blast
qed

subsection \<open>C5: stopping what does not run\<close>

text \<open>
  C5. When the first record of the name has a status other than \<open>running\<close>,
  \<^verbatim>\<open>StopProcess\<close> fails with the not-running error and leaves the world unchanged, so
  that no signal is sent; when the table loads and holds no record of the name, it fails
  with the not-found error and leaves the world unchanged.
\<close>

theorem StopProcess_not_running:
  "(GetProcess pm name w = Inr info \<and> Status info \<noteq> ''running''
      \<longrightarrow> StopProcess pm name w = (Some (NotRunning name (Status info)), w))
   \<and> (LoadProcesses w = Inr ps \<and> name \<notin> Name ` set ps
      \<longrightarrow> StopProcess pm name w = (Some (NotFound name), w))"
proof (intro conjI impI)
  assume "GetProcess pm name w = Inr info \<and> Status info \<noteq> ''running''"
  then show "StopProcess pm name w = (Some (NotRunning name (Status info)), w)"
    by (simp add: StopProcess_def)
next
  assume a: "LoadProcesses w = Inr ps \<and> name \<notin> Name ` set ps"
  then have "find (\<lambda>p. Name p = name) ps = None" by (auto simp: find_None_iff)
  with a have "GetProcess pm name w = Inl (NotFound name)" by (simp add: GetProcess_def)
  then show "StopProcess pm name w = (Some (NotFound name), w)" by (simp add: StopProcess_def)
qed

text \<open>The theorem of C5 at the stopped daemon \<open>web\<close> and at the unknown name \<open>api\<close>.\<close>

theorem StopProcess_not_running_witness:
  "GetProcess pm0 ''web'' world_stopped = Inr (daemon ''web'' 100 ''stopped'')
   \<and> StopProcess pm0 ''web'' world_stopped = (Some (NotRunning ''web'' ''stopped''), world_stopped)
   \<and> LoadProcesses world_stopped = Inr [daemon ''web'' 100 ''stopped'']
   \<and> StopProcess pm0 ''api'' world_stopped = (Some (NotFound ''api''), world_stopped)"
proof -
  have l: "LoadProcesses world_stopped = Inr [daemon ''web'' 100 ''stopped'']"
    by (rule load_examples)
  have g: "GetProcess pm0 ''web'' world_stopped = Inr (daemon ''web'' 100 ''stopped'')"
    by (simp add: GetProcess_def l) (simp add: daemon_def)
  have s: "Status (daemon ''web'' 100 ''stopped'') \<noteq> ''running''" by (simp add: daemon_def)
  have n: "''api'' \<notin> Name ` set [daemon ''web'' 100 ''stopped'']" by (simp add: daemon_def)
  from StopProcess_not_running [of pm0 "''web''" world_stopped "daemon ''web'' 100 ''stopped''"] g s
  have 1: "StopProcess pm0 ''web'' world_stopped
           = (Some (NotRunning ''web'' (Status (daemon ''web'' 100 ''stopped''))), world_stopped)"
    by blast
  from StopProcess_not_running [of pm0 "''api''" world_stopped _ "[daemon ''web'' 100 ''stopped'']"] l n
  have 2: "StopProcess pm0 ''api'' world_stopped = (Some (NotFound ''api''), world_stopped)"
    by blast
  from 1 2 g l show ?thesis by (simp add: daemon_def)
qed

subsection \<open>C6: stopping what runs\<close>

text \<open>
  C6, as the code has it. When the first record of the name says \<open>running\<close>,
  \<^verbatim>\<open>StopProcess\<close> returns no error; it sends SIGTERM to the recorded PID, sends SIGKILL
  right after it if and only if sending SIGTERM failed (the process was already gone),
  and then waits 100 ms; when the file can be written, the record is \<open>stopped\<close>
  afterwards.
\<close>

theorem StopProcess_signals:
  assumes "GetProcess pm name w = Inr info" and "Status info = ''running''"
  shows "fst (StopProcess pm name w) = None
         \<and> trace (snd (StopProcess pm name w)) =
             trace w @ (if IsProcessRunning w (PID info) then [Kill (PID info) SIGTERM]
                        else [Kill (PID info) SIGTERM, Kill (PID info) SIGKILL]) @ [Slept 100]
         \<and> (table_writable w \<longrightarrow>
              GetProcess pm name (snd (StopProcess pm name w)) = Inr (info\<lparr>Status := ''stopped''\<rparr>))"
proof -
  obtain ps where ps: "LoadProcesses w = Inr ps" and f: "find (\<lambda>p. Name p = name) ps = Some info"
    using assms(1) by (auto simp: GetProcess_def split: sum.splits option.splits)
  let ?w3 = "Sleep 100 (if IsProcessRunning w (PID info)
                        then snd (Signal (PID info) SIGTERM w)
                        else snd (Signal (PID info) SIGKILL (snd (Signal (PID info) SIGTERM w))))"
  have st: "StopProcess pm name w = (None, snd (SaveProcesses pm (stop_named name ps) ?w3))"
    using ps f assms(2) by (rule StopProcess_running)
  have 1: "fst (StopProcess pm name w) = None" by (simp add: st)
  have 2: "trace (snd (StopProcess pm name w)) =
             trace w @ (if IsProcessRunning w (PID info) then [Kill (PID info) SIGTERM]
                        else [Kill (PID info) SIGTERM, Kill (PID info) SIGKILL]) @ [Slept 100]"
    by (simp add: st Sleep_def)
  have 3: "GetProcess pm name (snd (StopProcess pm name w)) = Inr (info\<lparr>Status := ''stopped''\<rparr>)"
    if "table_writable w"
  proof -
    have "list_all stored (stop_named name ps)"
      using ps by (simp add: LoadProcesses_stored stored_stop_named)
    moreover have "table_writable ?w3" using that by (simp add: Sleep_def)
    ultimately have "LoadProcesses (snd (StopProcess pm name w)) = Inr (stop_named name ps)"
      unfolding st snd_conv by (rule LoadProcesses_saved_stored)
    then show ?thesis by (simp add: GetProcess_def find_stop_named [OF f])
  qed
  from 1 2 3 show ?thesis by blast
qed

text \<open>The theorem of C6 at the running and live daemon \<open>web\<close>, which exits on SIGTERM.\<close>

theorem StopProcess_signals_witness:
  "GetProcess pm0 ''web'' world_live = Inr (daemon ''web'' 100 ''running'')
   \<and> fst (StopProcess pm0 ''web'' world_live) = None
   \<and> trace (snd (StopProcess pm0 ''web'' world_live)) = [Kill 100 SIGTERM, Slept 100]
   \<and> GetProcess pm0 ''web'' (snd (StopProcess pm0 ''web'' world_live))
       = Inr (daemon ''web'' 100 ''stopped'')"
proof -
  have g: "GetProcess pm0 ''web'' world_live = Inr (daemon ''web'' 100 ''running'')"
    by (simp add: GetProcess_def load_examples) (simp add: daemon_def)
  have s: "Status (daemon ''web'' 100 ''running'') = ''running''" by (simp add: daemon_def)
  have a: "IsProcessRunning world_live (PID (daemon ''web'' 100 ''running''))"
    by (simp add: IsProcessRunning_def daemon_def world_live_def world_stale_def world0_def)
  have w: "table_writable world_live" "trace world_live = []"
    by (simp_all add: world_live_def world_stale_def world0_def)
  from StopProcess_signals [OF g s] g a w show ?thesis
    by (simp add: daemon_def)
qed

text \<open>
  C6 as stated fails: process 100 is alive and ignores SIGTERM. \<^verbatim>\<open>StopProcess\<close> sends
  SIGTERM only; after the wait the process is still alive, no SIGKILL has been sent, and
  the record says \<open>stopped\<close>.
\<close>

theorem StopProcess_no_escalation_counterexample:
  "GetProcess pm0 ''web'' world_stubborn = Inr (daemon ''web'' 100 ''running'')
   \<and> IsProcessRunning world_stubborn 100
   \<and> fst (StopProcess pm0 ''web'' world_stubborn) = None
   \<and> trace (snd (StopProcess pm0 ''web'' world_stubborn)) = [Kill 100 SIGTERM, Slept 100]
   \<and> IsProcessRunning (snd (StopProcess pm0 ''web'' world_stubborn)) 100
   \<and> GetProcess pm0 ''web'' (snd (StopProcess pm0 ''web'' world_stubborn))
       = Inr (daemon ''web'' 100 ''stopped'')"
proof -
  let ?d = "daemon ''web'' 100 ''running''"
  have l: "LoadProcesses world_stubborn = Inr [?d]" by (rule load_examples)
  have f: "find (\<lambda>p. Name p = ''web'') [?d] = Some ?d" by (simp add: daemon_def)
  have s: "Status ?d = ''running''" by (simp add: daemon_def)
  have g: "GetProcess pm0 ''web'' world_stubborn = Inr ?d"
    by (simp add: GetProcess_def l) (simp add: daemon_def)
  have h: "procs world_stubborn 100 = Some Ignores" "trace world_stubborn = []"
    "table_writable world_stubborn"
    by (simp_all add: world_stubborn_def world_stale_def world0_def)
  have a: "IsProcessRunning world_stubborn 100" by (simp add: IsProcessRunning_def h)
  let ?w3 = "Sleep 100 (snd (Signal 100 SIGTERM world_stubborn))"
  have st: "StopProcess pm0 ''web'' world_stubborn
            = (None, snd (SaveProcesses pm0 (stop_named ''web'' [?d]) ?w3))"
    using StopProcess_running [OF l f s, of pm0] a by (simp add: daemon_def)
  have 1: "fst (StopProcess pm0 ''web'' world_stubborn) = None" by (simp add: st)
  have 2: "trace (snd (StopProcess pm0 ''web'' world_stubborn)) = [Kill 100 SIGTERM, Slept 100]"
    by (simp add: st Sleep_def h)
  have 3: "IsProcessRunning (snd (StopProcess pm0 ''web'' world_stubborn)) 100"
    by (simp add: st IsProcessRunning_def Sleep_def Signal_def h)
  have sn: "stop_named ''web'' [?d] = [daemon ''web'' 100 ''stopped'']"
    by (simp add: daemon_def)
  have "table_writable ?w3" by (simp add: Sleep_def h)
  then have "LoadProcesses (snd (StopProcess pm0 ''web'' world_stubborn))
             = Inr [daemon ''web'' 100 ''stopped'']"
    unfolding st snd_conv sn by (intro LoadProcesses_saved_stored) (simp_all add: stored_daemon)
  then have 4: "GetProcess pm0 ''web'' (snd (StopProcess pm0 ''web'' world_stubborn))
                = Inr (daemon ''web'' 100 ''stopped'')"
    by (simp add: GetProcess_def) (simp add: daemon_def)
  from g a 1 2 3 4 show ?thesis by blast
qed

subsection \<open>C7: the tail of a log\<close>

text \<open>
  What \<^verbatim>\<open>ReadLogs\<close> without \<^verbatim>\<open>follow\<close> does: a name with no log file gives the
  log-not-found error; for a log file that can be read and \<open>0 \<le> n\<close> it prints the last
  \<open>n\<close> of the lines that the scanner has produced, oldest first, or all of them when
  there are fewer, and returns the error of the scanner.
\<close>

lemma ReadLogs_tail:
  "logs w (GetLogFile pm name) = NoLog \<Longrightarrow>
     ReadLogs pm name n False w = Some (Some (LogNotFound name), w)"
  "logs w (GetLogFile pm name) = Log data \<Longrightarrow> 0 \<le> n \<Longrightarrow> n < 2 ^ 63 \<Longrightarrow>
   length (fst (scan_all data)) < 2 ^ 63 \<Longrightarrow>
     ReadLogs pm name n False w =
       Some (snd (scan_all data),
             w\<lparr>trace := trace w @
                  map Stdout (drop (length (fst (scan_all data)) - nat n) (fst (scan_all data)))\<rparr>)"
  by (simp_all add: ReadLogs_def tailLines_in_range)

text \<open>
  When every line of the log is shorter than the buffer of the scanner, these are the last
  \<open>n\<close> lines of the file, each without its trailing carriage return, and the call
  returns no error.
\<close>

lemma ReadLogs_tail_short_lines:
  assumes "logs w (GetLogFile pm name) = Log data"
    and "\<forall>l\<in>set (file_lines [] data). length l < MaxScanTokenSize"
    and "0 \<le> n" and "n < 2 ^ 63" and "length (file_lines [] data) < 2 ^ 63"
  shows "ReadLogs pm name n False w =
           Some (None,
                 w\<lparr>trace := trace w @
                      map Stdout (drop (length (file_lines [] data) - nat n)
                                       (map dropCR (file_lines [] data)))\<rparr>)"
  using ReadLogs_tail(2) [OF assms(1,3,4)] assms(5)
  by (simp add: scan_all_file_lines [OF assms(2)])

text \<open>
  C7 fails on the code. The log of \<open>web\<close> has two lines, \<open>a\<close> and a line of 65536
  bytes. The scanner stops at the second line, which does not fit its buffer: the tail of
  10 lines prints \<open>a\<close> only and returns the token-too-long error, where the claim
  promises both lines.
\<close>

theorem tail_long_line_fails: "ReadLogs pm0 ''web'' 10 False world_long_line
   = Some (Some TokenTooLong, world_long_line\<lparr>trace := [Stdout ''a'']\<rparr>)"
  by (simp add: ReadLogs_def tailLines_def world_long_line_def world0_def scan_long wrap64_def)

subsection \<open>C8: the watcher\<close>

text \<open>
  What the watcher does when the table loads and the file can be written: it closes the
  log file and saves the table in which the first record whose PID is the one it tracks
  says \<open>stopped\<close>; every other record, at every position, is unchanged, so that a record
  with another PID, such as the one of a newer launch under the same name, is never
  touched.
\<close>

lemma watcher_marks_first_pid:
  assumes "LoadProcesses w = Inr ps" and "table_writable w"
  shows "trace (watcher pm info w) = trace w @ [LogClosed (LogFile info)]
         \<and> LoadProcesses (watcher pm info w) = Inr (stop_pid (PID info) ps)
         \<and> length (stop_pid (PID info) ps) = length ps
         \<and> (\<forall>i<length ps.
               stop_pid (PID info) ps ! i =
                 (if PID (ps ! i) = PID info \<and> (\<forall>j<i. PID (ps ! j) \<noteq> PID info)
                  then (ps ! i)\<lparr>Status := ''stopped''\<rparr> else ps ! i))"
proof -
  let ?w1 = "w\<lparr>trace := trace w @ [LogClosed (LogFile info)]\<rparr>"
  have w: "watcher pm info w = snd (SaveProcesses pm (stop_pid (PID info) ps) ?w1)"
    by (simp add: watcher_def Let_def assms(1))
  have "list_all stored (stop_pid (PID info) ps)"
    using assms(1) by (simp add: LoadProcesses_stored stored_stop_pid)
  moreover have "table_writable ?w1" using assms(2) by simp
  ultimately have "LoadProcesses (watcher pm info w) = Inr (stop_pid (PID info) ps)"
    unfolding w by (rule LoadProcesses_saved_stored)
  moreover have "trace (watcher pm info w) = trace w @ [LogClosed (LogFile info)]"
    by (simp add: w)
  ultimately show ?thesis by (simp add: stop_pid_nth)
qed

text \<open>
  C8 fails on the code. PID 100 was the PID of \<open>old\<close>, whose record says \<open>stopped\<close>, and
  is now the PID of \<open>web\<close>, whose record says \<open>running\<close>. When \<open>web\<close> terminates, its
  watcher closes the log file, marks the record of \<open>old\<close> and stops there: the record
  with the name and the PID of the tracked launch still says \<open>running\<close>.
\<close>

theorem watcher_pid_reuse_leaves_running:
  "LoadProcesses world_reused = Inr [daemon ''old'' 100 ''stopped'', daemon ''web'' 100 ''running'']
   \<and> table_writable world_reused
   \<and> trace (watcher pm0 (daemon ''web'' 100 ''running'') world_reused)
       = [LogClosed (GetLogFile pm0 ''web'')]
   \<and> LoadProcesses (watcher pm0 (daemon ''web'' 100 ''running'') world_reused)
       = Inr [daemon ''old'' 100 ''stopped'', daemon ''web'' 100 ''running'']"
proof -
  have l: "LoadProcesses world_reused
           = Inr [daemon ''old'' 100 ''stopped'', daemon ''web'' 100 ''running'']"
    by (rule load_examples)
  have h: "table_writable world_reused" "trace world_reused = []"
    by (simp_all add: world_reused_def world0_def)
  from watcher_marks_first_pid [OF l h(1), of pm0 "daemon ''web'' 100 ''running''"] l h
  show ?thesis by (simp add: daemon_def)
qed

subsection \<open>C9: a table that does not load\<close>

text \<open>
  C9. When the table file exists and does not load, \<^verbatim>\<open>AddProcess\<close> saves the table that
  holds the new record only, and the error of the load is not returned. When the file can
  be written, the call returns no error and the table file holds just the new record,
  unless the new record cannot be marshalled: then the call returns that error and
  changes nothing.
\<close>

theorem AddProcess_load_error_discards:
  assumes "LoadProcesses w = Inl err"
  shows "AddProcess pm info w = SaveProcesses pm [info] w
         \<and> fst (AddProcess pm info w) \<noteq> Some err
         \<and> (table_writable w \<longrightarrow>
              AddProcess pm info w =
                (if marshal_ok info
                 then (None, w\<lparr>table := Table [info],
                               table_seen := table_seen w @ [Malformed [], Table [info]],
                               syscalls := syscalls w @ [OpenTrunc (GetProcessFile pm),
                                 WriteAll (GetProcessFile pm) [info], Close (GetProcessFile pm)]\<rparr>)
                 else (Some MarshalFailed, w)))"
proof -
  have 1: "AddProcess pm info w = SaveProcesses pm [info] w"
    by (simp add: AddProcess_def assms)
  have "err = ReadFailed \<or> err = DecodeFailed"
    using assms by (auto simp: LoadProcesses_def split: table_file.splits if_splits)
  then have "fst (SaveProcesses pm [info] w) \<noteq> Some err"
    by (auto simp: SaveProcesses_eq)
  with 1 show ?thesis by (simp add: SaveProcesses_eq)
qed

text \<open>The theorem of C9 at a table file that is not JSON.\<close>

theorem AddProcess_load_error_discards_witness:
  "LoadProcesses world_corrupt = Inl DecodeFailed
   \<and> table_writable world_corrupt
   \<and> fst (AddProcess pm0 (daemon ''web'' 100 ''running'') world_corrupt) = None
   \<and> table (snd (AddProcess pm0 (daemon ''web'' 100 ''running'') world_corrupt))
       = Table [daemon ''web'' 100 ''running'']
   \<and> LoadProcesses (snd (AddProcess pm0 (daemon ''web'' 100 ''running'') world_corrupt))
       = Inr [daemon ''web'' 100 ''running'']"
proof -
  have h: "LoadProcesses world_corrupt = Inl DecodeFailed" by (rule load_examples)
  have w: "table_writable world_corrupt" by (simp add: world_corrupt_def world0_def)
  have m: "marshal_ok (daemon ''web'' 100 ''running'')" by simp
  from conjunct2 [OF conjunct2
      [OF AddProcess_load_error_discards [OF h, of pm0 "daemon ''web'' 100 ''running''"]]] w m
  have e: "AddProcess pm0 (daemon ''web'' 100 ''running'') world_corrupt =
             (None, world_corrupt\<lparr>table := Table [daemon ''web'' 100 ''running''],
                table_seen := table_seen world_corrupt
                  @ [Malformed [], Table [daemon ''web'' 100 ''running'']],
                syscalls := syscalls world_corrupt @ [OpenTrunc (GetProcessFile pm0),
                  WriteAll (GetProcessFile pm0) [daemon ''web'' 100 ''running''],
                  Close (GetProcessFile pm0)]\<rparr>)"
    by simp
  show ?thesis
    unfolding e using h w by (simp add: LoadProcesses_def json_roundtrip_daemon)
qed

subsection \<open>C10: the tail of no lines\<close>

text \<open>
  What \<^verbatim>\<open>tailLines\<close> does for \<open>n \<le> 0\<close>: as long as the number of scanned lines minus
  \<open>n\<close> fits a 64-bit integer, it prints nothing and returns the error of the scanner.
\<close>

lemma ReadLogs_tail_nonpositive:
  "logs w (GetLogFile pm name) = Log data \<Longrightarrow> n \<le> 0 \<Longrightarrow>
   int (length (fst (scan_all data))) - n < 2 ^ 63 \<Longrightarrow>
     ReadLogs pm name n False w = Some (snd (scan_all data), w\<lparr>trace := trace w\<rparr>)"
  by (simp add: ReadLogs_def tailLines_nonpositive)

text \<open>
  C10 fails on the code. The log of \<open>web\<close> has the three lines \<open>a\<close>, \<open>b\<close>, \<open>c\<close>,
  and \<open>n\<close> is the least 64-bit integer. \<^verbatim>\<open>len(lines) - n\<close> wraps around to a negative
  number, the start index becomes 0, and the tail prints all three lines.
\<close>

theorem tail_min_int_prints_all: "ReadLogs pm0 ''web'' (- (2 ^ 63)) False world_log
   = Some (None, world_log\<lparr>trace := [Stdout ''a'', Stdout ''b'', Stdout ''c'']\<rparr>)"
  by (simp add: ReadLogs_def tailLines_def world_log_def world0_def scan_abc wrap64_def)

end
